theory Spec2Isabelle
  imports Complex_Main "HOL-Library.Sublist"
begin

section \<open>BARNACLE dark calibration: \<open>barnacle/calibration/dark.py\<close>\<close>

text \<open>
  The module averages a stack of dark exposures (\<open>get_average_dark\<close>) and, when monitoring
  is requested, builds histograms and time traces of the noise (\<open>check_dark\<close>).
  Floating-point values are modelled by \<^typ>\<open>real\<close>. Sums, differences and means are
  taken in exact arithmetic; the division that normalizes a histogram is rounded to the
  nearest double (\<open>float64\<close> below). Where numpy produces a non-finite value (a division by
  zero, the mean of an empty axis) the value is an explicit \<open>None\<close> of
  \<^typ>\<open>real option\<close>. Python exceptions are values of the type \<open>py_error\<close>, and a function
  that may raise returns \<open>py_error + 'a\<close>.
\<close>

subsection \<open>Python strings and list slices\<close>

text \<open>
  \<open>OSError\<close> stands for \<open>OSError\<close> and its subclasses (\<open>FileNotFoundError\<close>,
  \<open>NotADirectoryError\<close>, \<open>PermissionError\<close>) except \<open>FileExistsError\<close>, which \<open>os.makedirs\<close>
  catches and which is kept apart.
\<close>

datatype py_error = NameError | ValueError | AxisError | OSError | FileExistsError

text \<open>\<open>k in f\<close> on Python strings: \<open>k\<close> occurs in \<open>f\<close> as a contiguous substring.\<close>

fun str_in :: "string \<Rightarrow> string \<Rightarrow> bool" where
  "str_in k [] = (k = [])"
| "str_in k (c # cs) = (prefix k (c # cs) \<or> str_in k cs)"

text \<open>
  \<open>xs[lo:hi]\<close> with step 1: a bound that is \<open>None\<close> is open, a negative bound counts from
  the end, and both are clamped to the list.
\<close>

definition slice_bound :: "nat \<Rightarrow> int \<Rightarrow> nat" where
  "slice_bound n i = (if i < 0 then nat (int n + i) else min n (nat i))"

definition py_slice :: "'a list \<Rightarrow> int option \<Rightarrow> int option \<Rightarrow> 'a list" where
  "py_slice xs lo hi =
     (let n = length xs;
          a = (case lo of None \<Rightarrow> 0 | Some i \<Rightarrow> slice_bound n i);
          b = (case hi of None \<Rightarrow> n | Some j \<Rightarrow> slice_bound n j)
      in take (b - a) (drop a xs))"

subsection \<open>File selection of \<open>get_average_dark\<close>\<close>

text \<open>
  Line 137-138:
  \<^verbatim>\<open>[data_path+f for f in os.listdir(data_path) if keyword in f and not '.txt' in f]\<close>
  followed by the slice \<^verbatim>\<open>[nb_files[0]:nb_files[1]]\<close>. The argument \<open>listing\<close> is the
  result of \<open>os.listdir(data_path)\<close>.
\<close>

definition keep_file :: "string \<Rightarrow> string \<Rightarrow> bool" where
  "keep_file keyword f = (str_in keyword f \<and> \<not> str_in ''.txt'' f)"

definition filtered_files :: "string \<Rightarrow> string list \<Rightarrow> string list" where
  "filtered_files keyword listing = filter (keep_file keyword) listing"

definition select_dark_list ::
  "string \<Rightarrow> string list \<Rightarrow> string \<Rightarrow> int option \<times> int option \<Rightarrow> string list" where
  "select_dark_list data_path listing keyword nb_files =
     py_slice (map (\<lambda>f. data_path @ f) (filtered_files keyword listing))
       (fst nb_files) (snd nb_files)"

subsection \<open>Histogram bin edges of \<open>check_dark\<close>\<close>

text \<open>
  \<open>np.linspace(start, stop, num, retstep=True)\<close> for \<open>num \<ge> 0\<close>: \<open>num\<close> evenly spaced
  samples \<open>start + i * step\<close> with \<open>step = (stop - start) / (num - 1)\<close>; the returned step
  is not a number when \<open>num = 1\<close> (\<open>None\<close> here). A negative \<open>num\<close> raises \<open>ValueError\<close>.
\<close>

definition linspace_delta :: "real \<Rightarrow> real \<Rightarrow> nat \<Rightarrow> real" where
  "linspace_delta start stop num = (stop - start) / real (num - 1)"

definition linspace_step :: "real \<Rightarrow> real \<Rightarrow> nat \<Rightarrow> real option" where
  "linspace_step start stop num =
     (if num \<le> 1 then None else Some (linspace_delta start stop num))"

definition linspace :: "real \<Rightarrow> real \<Rightarrow> nat \<Rightarrow> real list" where
  "linspace start stop num =
     map (\<lambda>i. start + real i * linspace_delta start stop num) [0..<num]"

text \<open>
  Line 222-223: \<^verbatim>\<open>np.linspace(edge_min-0.5, edge_max+0.5, edge_max-edge_min+1, retstep=True)\<close>
  with integer bounds.
\<close>

definition bin_edges :: "int \<Rightarrow> int \<Rightarrow> py_error + real list" where
  "bin_edges edge_min edge_max =
     (if edge_max - edge_min + 1 < 0 then Inl ValueError
      else Inr (linspace (real_of_int edge_min - 0.5) (real_of_int edge_max + 0.5)
                  (nat (edge_max - edge_min + 1))))"

definition bin_step :: "int \<Rightarrow> int \<Rightarrow> real option" where
  "bin_step edge_min edge_max =
     linspace_step (real_of_int edge_min - 0.5) (real_of_int edge_max + 0.5)
       (nat (edge_max - edge_min + 1))"

text \<open>\<open>np.diff\<close>: the differences of consecutive elements (line 348).\<close>

definition np_diff :: "real list \<Rightarrow> real list" where
  "np_diff es = map2 (\<lambda>r l. r - l) (tl es) es"

subsection \<open>Arrays\<close>

text \<open>
  A numpy array is a nested list. A frame is \<open>344 \<times> 96\<close>, a datacube is a list of frames, a
  channel slice of one frame is \<open>96 \<times> 16 \<times> 20\<close> (spatial, channel, spectral). A float that
  may be non-finite is a \<^typ>\<open>real option\<close>.
\<close>

type_synonym frame = "real list list"
type_synonym cube = "frame list"
type_synonym chan = "real list list list"
type_synonym npfloat = "real option"

definition zeros2 :: "nat \<Rightarrow> nat \<Rightarrow> frame" where
  "zeros2 m n = replicate m (replicate n 0)"

definition zeros3 :: "nat \<Rightarrow> nat \<Rightarrow> nat \<Rightarrow> chan" where
  "zeros3 l m n = replicate l (zeros2 m n)"

definition add2 :: "frame \<Rightarrow> frame \<Rightarrow> frame" where
  "add2 a b = map2 (map2 (+)) a b"

definition add3 :: "chan \<Rightarrow> chan \<Rightarrow> chan" where
  "add3 a b = map2 add2 a b"

definition sub3 :: "chan \<Rightarrow> chan \<Rightarrow> chan" where
  "sub3 a b = map2 (map2 (map2 (-))) a b"

definition div2 :: "frame \<Rightarrow> real \<Rightarrow> frame" where
  "div2 a c = map (map (\<lambda>x. x / c)) a"

definition div3 :: "chan \<Rightarrow> real \<Rightarrow> chan" where
  "div3 a c = map (\<lambda>m. div2 m c) a"

text \<open>
  \<open>.sum(axis=0)\<close> of a datacube and of its channel slices. The result of a sum over zero
  frames is the zero array of the remaining shape, which is the shape of the accumulators
  of line 147-148.
\<close>

definition sum_frames :: "cube \<Rightarrow> frame" where
  "sum_frames fs = foldl add2 (zeros2 344 96) fs"

definition sum_slices :: "chan list \<Rightarrow> chan" where
  "sum_slices ss = foldl add3 (zeros3 96 16 20) ss"

text \<open>\<open>.mean()\<close>: not a number on an empty axis.\<close>

definition np_mean :: "real list \<Rightarrow> npfloat" where
  "np_mean xs = (if xs = [] then None else Some (sum_list xs / real (length xs)))"

text \<open>\<open>data.mean(axis=(1, 2))\<close>: the mean of every frame over its pixels.\<close>

definition frame_means :: "cube \<Rightarrow> npfloat list" where
  "frame_means d = map (\<lambda>fr. np_mean (concat fr)) d"

text \<open>
  The double nearest to a real number, ties to the even significand (IEEE 754 binary64 with
  52 fraction bits; overflow and subnormal numbers are left out: the quotients rounded here
  are 0 or lie between \<open>2 powr -53\<close> and 1).
\<close>

definition round_half_even :: "real \<Rightarrow> int" where
  "round_half_even y =
     (let f = \<lfloor>y\<rfloor>
      in if y - of_int f < 1 / 2 then f
         else if 1 / 2 < y - of_int f then f + 1
         else if even f then f else f + 1)"

definition float64 :: "real \<Rightarrow> real" where
  "float64 x =
     (if x = 0 then 0
      else let ulp = 2 powr (of_int \<lfloor>log 2 \<bar>x\<bar>\<rfloor> - 52)
           in of_int (round_half_even (x / ulp)) * ulp)"

text \<open>
  Integer counts divided as floats (the counts, below \<open>2 ^ 53\<close>, are doubles exactly): the
  quotient is rounded, and a zero denominator gives \<open>nan\<close> or \<open>inf\<close>.
\<close>

definition np_true_divide :: "nat \<Rightarrow> nat \<Rightarrow> npfloat" where
  "np_true_divide c t = (if t = 0 then None else Some (float64 (real c / real t)))"

text \<open>
  \<open>np.histogram(a, bins=edges)[0]\<close>: bin \<open>i\<close> counts the values in
  \<open>[edges[i], edges[i+1])\<close>, the last bin also its right edge. Edges that decrease raise
  \<open>ValueError\<close>.
\<close>

definition in_bin :: "real list \<Rightarrow> nat \<Rightarrow> real \<Rightarrow> bool" where
  "in_bin edges i x =
     (edges ! i \<le> x \<and> (x < edges ! Suc i \<or> (Suc (Suc i) = length edges \<and> x = edges ! Suc i)))"

definition np_histogram :: "real list \<Rightarrow> real list \<Rightarrow> py_error + nat list" where
  "np_histogram a edges =
     (if \<not> sorted edges then Inl ValueError
      else Inr (map (\<lambda>i. length (filter (in_bin edges i) a)) [0..<length edges - 1]))"

text \<open>Line 92-110.\<close>

definition get_histogram :: "real list \<Rightarrow> real list \<Rightarrow> py_error + nat list" where
  "get_histogram data_flat bins = np_histogram data_flat bins"

subsection \<open>External collaborators\<close>

text \<open>
  The loader \<open>glint_classes.Null\<close>, its method \<open>getChannels\<close> and the numerical solvers behind
  \<open>scipy.optimize.curve_fit\<close> and \<open>np.polyfit\<close> are outside this module; they are parameters
  of the model. An exposure has the attributes \<open>data\<close> (frames \<open>\<times> 344 \<times> 96\<close>) and \<open>nbimg\<close>.
  \<open>getChannels\<close> stands for \<open>dark.getChannels(channel_pos, sep, spatial_axis)\<close> followed by a
  read of \<open>dark.slices\<close>, with the geometry of \<open>get_channel_positions(NB_TRACKS)\<close>.
\<close>

record exposure =
  data :: cube
  nbimg :: nat

record glint =
  Null :: "string \<Rightarrow> py_error + exposure"
  getChannels :: "cube \<Rightarrow> py_error + chan list"
  least_squares :: "real list \<Rightarrow> real list \<Rightarrow> npfloat list \<Rightarrow> py_error + real list"
  polyfit :: "npfloat list \<Rightarrow> npfloat list \<Rightarrow> py_error + real list"

text \<open>
  \<open>curve_fit(gaussian_curve, xdata, ydata, p0)\<close> with the default \<open>check_finite=True\<close>:
  \<open>ValueError\<close> when the data contain a non-finite value, the solver otherwise.
\<close>

definition curve_fit ::
  "glint \<Rightarrow> npfloat list \<Rightarrow> npfloat list \<Rightarrow> npfloat list \<Rightarrow> py_error + real list" where
  "curve_fit g xdata ydata p0 =
     (if None \<in> set xdata \<or> None \<in> set ydata then Inl ValueError
      else least_squares g (map the xdata) (map the ydata) p0)"

subsection \<open>The file system\<close>

text \<open>
  What the module reads and writes. \<open>listdir\<close> is what \<open>os.listdir\<close> returns or raises for a
  folder at the start of a run (the module lists the data folder once, before it changes
  anything). \<open>paths\<close> is the set of the entries that exist, \<open>contents\<close> what the written
  files and the files the module finds hold (\<open>Other\<close> for a file that is not one of its
  artifacts), and \<open>mkdir_error\<close> the error with which the operating system refuses to create
  a directory (no permission, a read-only medium), \<open>None\<close> when it does not refuse. An entry
  with contents is a file, an entry without is a directory. Writing a file succeeds in the
  model. An array stored in a file is a nested \<open>nd\<close> value.

  A name denotes an entry as POSIX resolves it: the name is cut at the separators, empty
  components and \<open>.\<close> components are dropped, and a leading separator makes the name
  absolute. So \<open>out\<close>, \<open>out/\<close>, \<open>./out\<close> and \<open>out//.\<close> denote one entry. A component \<open>..\<close> and
  links are not resolved: \<open>..\<close> is a component like another.
\<close>

datatype nd = Num npfloat | Arr "nd list"

datatype artifact = Npy nd | Hdf5 "(string \<times> nd) list" | Png | Other

fun split_sep :: "string \<Rightarrow> string list" where
  "split_sep [] = [[]]"
| "split_sep (c # cs) =
     (if c = CHR ''/'' then [] # split_sep cs
      else (c # hd (split_sep cs)) # tl (split_sep cs))"

definition components :: "string \<Rightarrow> string list" where
  "components p = filter (\<lambda>w. w \<noteq> [] \<and> w \<noteq> ''.'') (split_sep p)"

type_synonym entry = "bool \<times> string list"

definition entry_of :: "string \<Rightarrow> entry" where
  "entry_of p = (p \<noteq> [] \<and> hd p = CHR ''/'', components p)"

record filesystem =
  listdir :: "string \<Rightarrow> py_error + string list"
  paths :: "entry set"
  contents :: "entry \<rightharpoonup> artifact"
  mkdir_error :: "entry \<Rightarrow> py_error option"

definition nd1 :: "npfloat list \<Rightarrow> nd" where
  "nd1 xs = Arr (map Num xs)"

definition nd2 :: "npfloat list list \<Rightarrow> nd" where
  "nd2 xs = Arr (map nd1 xs)"

definition nd3 :: "npfloat list list list \<Rightarrow> nd" where
  "nd3 xs = Arr (map nd2 xs)"

text \<open>
  \<open>os.path.exists(p)\<close>. The empty name never exists; the root directory and the working
  directory, the names without a component, always do. A name that ends with a separator
  or with a \<open>.\<close> component names a directory: it does not exist when its entry is a file.
\<close>

definition names_directory :: "string \<Rightarrow> bool" where
  "names_directory p = (last (split_sep p) = [] \<or> last (split_sep p) = ''.'')"

definition path_exists :: "filesystem \<Rightarrow> string \<Rightarrow> bool" where
  "path_exists fs p =
     (p \<noteq> [] \<and>
      (components p = [] \<or>
       (entry_of p \<in> paths fs \<and> (names_directory p \<longrightarrow> contents fs (entry_of p) = None))))"

definition write_file :: "string \<Rightarrow> artifact \<Rightarrow> filesystem \<Rightarrow> filesystem" where
  "write_file path a fs =
     fs\<lparr>paths := insert (entry_of path) (paths fs),
        contents := (contents fs)(entry_of path \<mapsto> a)\<rparr>"

text \<open>\<open>np.save(file, arr)\<close> appends \<open>.npy\<close> to a file name that lacks it.\<close>

definition np_save :: "string \<Rightarrow> nd \<Rightarrow> filesystem \<Rightarrow> filesystem" where
  "np_save file arr fs =
     write_file (if suffix ''.npy'' file then file else file @ ''.npy'') (Npy arr) fs"

definition savefig :: "string \<Rightarrow> filesystem \<Rightarrow> filesystem" where
  "savefig path fs = write_file path Png fs"

text \<open>
  Line 54-89, \<open>save_histo_dark\<close>. An existing file is opened with \<open>'w'\<close> and truncated, a new
  one is created with \<open>'a'\<close>; in both cases the file then holds the datasets written here.
  \<open>dic_data[value]\<close> reads the row of a track.
\<close>

definition track_id :: "(string \<times> nat) list" where
  "track_id = [(''p1'', 15), (''p2'', 13), (''p3'', 2), (''p4'', 0),
               (''null1'', 11), (''null2'', 3), (''null3'', 1), (''null4'', 6),
               (''null5'', 5), (''null6'', 8), (''antinull1'', 9), (''antinull2'', 12),
               (''antinull3'', 14), (''antinull4'', 4), (''antinull5'', 7),
               (''antinull6'', 10)]"

fun nd_row :: "nd \<Rightarrow> nat \<Rightarrow> nd" where
  "nd_row (Arr xs) i = xs ! i"
| "nd_row (Num x) i = Num x"

definition save_histo_dark :: "string \<Rightarrow> nd \<Rightarrow> string \<Rightarrow> filesystem \<Rightarrow> filesystem" where
  "save_histo_dark path dic_data mode fs =
     (let opening_mode = (if path_exists fs path then ''w'' else ''a'')
      in if mode = ''channel''
         then write_file path (Hdf5 (map (\<lambda>(key, v). (key, nd_row dic_data v)) track_id)) fs
         else write_file path (Hdf5 [(''histogram'', dic_data)]) fs)"

subsection \<open>Effects and exceptions\<close>

text \<open>
  A computation on the file system that may raise. The file system is returned in both
  cases: what was written before an exception stays written.
\<close>

type_synonym 'a io = "filesystem \<Rightarrow> (py_error + 'a) \<times> filesystem"

definition io_return :: "'a \<Rightarrow> 'a io" where
  "io_return x = (\<lambda>fs. (Inr x, fs))"

definition io_lift :: "py_error + 'a \<Rightarrow> 'a io" where
  "io_lift r = (\<lambda>fs. (r, fs))"

definition io_bind :: "'a io \<Rightarrow> ('a \<Rightarrow> 'b io) \<Rightarrow> 'b io" where
  "io_bind m f = (\<lambda>fs. case m fs of (Inl e, fs') \<Rightarrow> (Inl e, fs') | (Inr x, fs') \<Rightarrow> f x fs')"

definition io_write :: "(filesystem \<Rightarrow> filesystem) \<Rightarrow> unit io" where
  "io_write w = (\<lambda>fs. (Inr (), w fs))"

definition io_when :: "bool \<Rightarrow> unit io \<Rightarrow> unit io" where
  "io_when b m = (if b then m else io_return ())"

text \<open>The same for a computation without effects.\<close>

definition err_bind :: "py_error + 'a \<Rightarrow> ('a \<Rightarrow> py_error + 'b) \<Rightarrow> py_error + 'b" where
  "err_bind r f = (case r of Inl e \<Rightarrow> Inl e | Inr x \<Rightarrow> f x)"

fun err_map :: "('a \<Rightarrow> py_error + 'b) \<Rightarrow> 'a list \<Rightarrow> py_error + 'b list" where
  "err_map f [] = Inr []"
| "err_map f (x # xs) =
     err_bind (f x) (\<lambda>y. err_bind (err_map f xs) (\<lambda>ys. Inr (y # ys)))"

subsection \<open>Listing the data folder and creating the output directory\<close>

text \<open>\<open>os.listdir(path)\<close>.\<close>

definition os_listdir :: "string \<Rightarrow> string list io" where
  "os_listdir path = (\<lambda>fs. (listdir fs path, fs))"

text \<open>
  \<open>posixpath.split(p)\<close>: the tail is what follows the last separator, the head what
  precedes it, without its trailing separators unless it consists of separators only.
\<close>

definition path_split :: "string \<Rightarrow> string \<times> string" where
  "path_split p =
     (let head = rev (dropWhile (\<lambda>c. c \<noteq> CHR ''/'') (rev p));
          tail = rev (takeWhile (\<lambda>c. c \<noteq> CHR ''/'') (rev p))
      in (if head \<noteq> [] \<and> head \<noteq> replicate (length head) CHR ''/''
          then rev (dropWhile (\<lambda>c. c = CHR ''/'') (rev head)) else head, tail))"

text \<open>
  The first lines of \<open>os.makedirs\<close>:
  \<^verbatim>\<open>head, tail = path.split(name)\<close>, and \<^verbatim>\<open>if not tail: head, tail = path.split(head)\<close>.
\<close>

definition makedirs_split :: "string \<Rightarrow> string \<times> string" where
  "makedirs_split name =
     (let (head, tail) = path_split name
      in if tail = [] then path_split head else (head, tail))"

text \<open>
  \<open>os.mkdir(name)\<close> creates one directory. It raises \<open>FileNotFoundError\<close> for the empty
  name and for a name whose parent does not exist, \<open>NotADirectoryError\<close> for one whose parent
  is a file, \<open>FileExistsError\<close> for a name whose entry exists, and the error of the operating
  system when that refuses.
\<close>

definition mkdir :: "string \<Rightarrow> unit io" where
  "mkdir name fs =
     (let e = entry_of name; parent = (fst e, butlast (snd e))
      in if name = [] \<or>
            (snd parent \<noteq> [] \<and> (parent \<notin> paths fs \<or> contents fs parent \<noteq> None))
         then (Inl OSError, fs)
         else if snd e = [] \<or> e \<in> paths fs then (Inl FileExistsError, fs)
         else case mkdir_error fs e of
                Some err \<Rightarrow> (Inl err, fs)
              | None \<Rightarrow> (Inr (), fs\<lparr>paths := insert e (paths fs)\<rparr>))"

text \<open>
  \<open>os.makedirs(name)\<close> with the default \<open>exist_ok=False\<close>: when the parent directory is
  missing it is created first, by the same function, then the directory itself. A
  \<open>FileExistsError\<close> of the recursive call is caught; every other error, and every error of
  \<open>mkdir\<close>, is raised. The directories created before an error stay.
\<close>

function makedirs :: "string \<Rightarrow> unit io" where
  "makedirs name fs =
     (let head = fst (makedirs_split name); tail = snd (makedirs_split name)
      in if head \<noteq> [] \<and> tail \<noteq> [] \<and> \<not> path_exists fs head
         then (case makedirs head fs of
                 (Inl e, fs') \<Rightarrow>
                   if e \<noteq> FileExistsError then (Inl e, fs')
                   else if tail = ''.'' then (Inr (), fs')
                   else mkdir name fs'
               | (Inr u, fs') \<Rightarrow> if tail = ''.'' then (Inr (), fs') else mkdir name fs')
         else mkdir name fs)"
  by pat_completeness auto
termination
proof (relation "measure (\<lambda>(name, fs). length name)")
  show "wf (measure (\<lambda>(name, fs). length name))" by simp
next
  fix name :: string and fs :: filesystem and x xa
  assume x: "x = fst (makedirs_split name)" and xa: "xa = snd (makedirs_split name)"
    and c: "x \<noteq> [] \<and> xa \<noteq> [] \<and> \<not> path_exists fs x"
  have strip: "length (dropWhile (\<lambda>c. c = CHR ''/'') (rev (rev d))) \<le> length d" for d :: string
    using length_dropWhile_le [of "\<lambda>c. c = CHR ''/''" d] by simp
  have le: "length (fst (path_split p)) \<le> length p" for p
  proof -
    have "length (dropWhile (\<lambda>c. c \<noteq> CHR ''/'') (rev p)) \<le> length p"
      using length_dropWhile_le [of "\<lambda>c. c \<noteq> CHR ''/''" "rev p"] by simp
    with strip [of "dropWhile (\<lambda>c. c \<noteq> CHR ''/'') (rev p)"] show ?thesis
      by (simp add: path_split_def Let_def)
  qed
  have less: "length (fst (path_split p)) < length p" if "snd (path_split p) \<noteq> []" for p
  proof -
    have "length (takeWhile (\<lambda>c. c \<noteq> CHR ''/'') (rev p))
            + length (dropWhile (\<lambda>c. c \<noteq> CHR ''/'') (rev p)) = length p"
      unfolding length_append [symmetric] takeWhile_dropWhile_id by simp
    moreover have "takeWhile (\<lambda>c. c \<noteq> CHR ''/'') (rev p) \<noteq> []"
      using that by (simp add: path_split_def Let_def)
    ultimately have "length (dropWhile (\<lambda>c. c \<noteq> CHR ''/'') (rev p)) < length p"
      by (cases "takeWhile (\<lambda>c. c \<noteq> CHR ''/'') (rev p)") simp_all
    with strip [of "dropWhile (\<lambda>c. c \<noteq> CHR ''/'') (rev p)"] show ?thesis
      by (simp add: path_split_def Let_def)
  qed
  have "length x < length name"
  proof (cases "snd (path_split name) = []")
    case True
    then have "x = fst (path_split (fst (path_split name)))"
      "xa = snd (path_split (fst (path_split name)))"
      using x xa by (simp_all add: makedirs_split_def split_def)
    then have "length x < length (fst (path_split name))"
      using c less by simp
    with le [of name] show ?thesis by simp
  next
    case False
    then have "x = fst (path_split name)"
      using x by (simp add: makedirs_split_def split_def)
    with False less show ?thesis by simp
  qed
  then show "((x, fs), name, fs) \<in> measure (\<lambda>(name, fs). length name)"
    by simp
qed

text \<open>Line 140-141: \<^verbatim>\<open>if not os.path.exists(output_path): os.makedirs(output_path)\<close>.\<close>

definition ensure_output_dir :: "string \<Rightarrow> unit io" where
  "ensure_output_dir output_path fs =
     (if \<not> path_exists fs output_path then makedirs output_path fs else (Inr (), fs))"

subsection \<open>\<open>check_dark\<close>: the per-exposure loop (line 228-262)\<close>

record traces =
  dark_current :: "npfloat list list"
  dk56 :: "npfloat list"
  dk56bis :: "npfloat list"

record diag =
  list_hist :: "nat list list"
  hist_slices :: "nat list list list"
  series :: "traces option"

text \<open>
  \<open>np.ravel(dark.data - dark.data.mean(axis=(1, 2))[:, None, None])\<close>: every pixel minus the
  mean of its own frame.
\<close>

definition centred :: "cube \<Rightarrow> real list" where
  "centred d =
     concat (map (\<lambda>fr. case np_mean (concat fr) of None \<Rightarrow> []
                         | Some m \<Rightarrow> map (\<lambda>x. x - m) (concat fr)) d)"

text \<open>\<open>np.ravel(dark.slices[:, :, k, :])\<close>.\<close>

definition channel_values :: "chan list \<Rightarrow> nat \<Rightarrow> real list" where
  "channel_values sl k = concat (map (\<lambda>s. concat (map (\<lambda>row. row ! k) s)) sl)"

text \<open>\<open>dark.slices.mean(axis=(1, 3))\<close> for one frame: one mean per channel.\<close>

definition channel_means :: "chan \<Rightarrow> npfloat list" where
  "channel_means s = map (\<lambda>k. np_mean (concat (map (\<lambda>row. row ! k) s))) [0..<16]"

text \<open>
  Line 241-256. The three traces are unbound before the first exposure: the \<open>try\<close> block
  raises \<open>NameError\<close> at its first statement and the \<open>except\<close> block binds all three. From
  the second exposure on the \<open>try\<close> block runs: it extends \<open>dark_current\<close> and \<open>dk56\<close>, and
  binds \<open>dk56bis\<close> to the stack of the just extended \<open>dk56\<close> and the new sample.
  \<open>dark.slices[:, 56, 15, :].mean(axis=-1)\<close> is one mean per frame;
  \<open>dark.slices[:, 56, 15, 10]\<close> has the frame axis only, so its \<open>.mean(axis=-1)\<close> is one number
  per exposure.
\<close>

definition update_traces :: "chan list \<Rightarrow> traces option \<Rightarrow> traces" where
  "update_traces sl tr =
     (let dc_new = map channel_means sl;
          dk56_new = map (\<lambda>s. np_mean (s ! 56 ! 15)) sl;
          dk56bis_new = [np_mean (map (\<lambda>s. s ! 56 ! 15 ! 10) sl)]
      in case tr of
           None \<Rightarrow> \<lparr>dark_current = dc_new, dk56 = dk56_new, dk56bis = dk56bis_new\<rparr>
         | Some t \<Rightarrow>
             (let dc = dark_current t @ dc_new;
                  d = dk56 t @ dk56_new
              in \<lparr>dark_current = dc, dk56 = d, dk56bis = d @ dk56bis_new\<rparr>))"

definition diag_file ::
  "glint \<Rightarrow> real list \<Rightarrow> chan \<Rightarrow> string \<Rightarrow> diag \<Rightarrow> py_error + diag" where
  "diag_file g bin_hist sdc f st =
     err_bind (Null g f) (\<lambda>dark.
     err_bind (np_histogram (centred (data dark)) bin_hist) (\<lambda>hist.
     err_bind (getChannels g (data dark)) (\<lambda>slices.
       let sl = map (\<lambda>s. sub3 s sdc) slices;
           tr = update_traces sl (series st)
       in err_bind (err_map (\<lambda>k. get_histogram (channel_values sl k) bin_hist) [0..<16])
            (\<lambda>histo_per_file.
               Inr \<lparr>list_hist = list_hist st @ [hist],
                    hist_slices = hist_slices st @ [histo_per_file],
                    series = Some tr\<rparr>))))"

fun diag_loop ::
  "glint \<Rightarrow> real list \<Rightarrow> chan \<Rightarrow> string list \<Rightarrow> diag \<Rightarrow> py_error + diag" where
  "diag_loop g bin_hist sdc [] st = Inr st"
| "diag_loop g bin_hist sdc (f # fs) st =
     err_bind (diag_file g bin_hist sdc f st) (diag_loop g bin_hist sdc fs)"

subsection \<open>\<open>check_dark\<close>: combined histograms and fits (line 264-282)\<close>

text \<open>
  \<open>np.sum(hist_slices, axis=0)\<close> over the files. With no file \<open>hist_slices\<close> is an empty
  array, its sum a scalar, and \<open>np.sum(super_hist, axis=1)\<close> raises \<open>AxisError\<close>.
\<close>

definition sum_hist_slices :: "nat list list list \<Rightarrow> py_error + nat list list" where
  "sum_hist_slices hs =
     (case hs of [] \<Rightarrow> Inl AxisError
      | h # rest \<Rightarrow> Inr (foldl (map2 (map2 (+))) h rest))"

definition sum_list_hist :: "nat list list \<Rightarrow> nat list" where
  "sum_list_hist hs = (case hs of [] \<Rightarrow> [] | h # rest \<Rightarrow> foldl (map2 (+)) h rest)"

text \<open>Line 267 and 270: \<open>h / np.sum(h)\<close>, row by row for the channels.\<close>

definition normalize_hist :: "nat list \<Rightarrow> npfloat list" where
  "normalize_hist h = map (\<lambda>c. np_true_divide c (sum_list h)) h"

definition normalize_rows :: "nat list list \<Rightarrow> npfloat list list" where
  "normalize_rows super_hist = map normalize_hist super_hist"

text \<open>
  Python's \<open>max\<close> of a row: \<open>ValueError\<close> on an empty row. On a row with a \<open>nan\<close> the result
  depends on the position of the \<open>nan\<close>; it is \<open>None\<close> here, and \<open>curve_fit\<close> raises on such
  a row whatever the initial guess is.
\<close>

definition py_max :: "npfloat list \<Rightarrow> py_error + npfloat" where
  "py_max ys =
     (if ys = [] then Inl ValueError
      else if None \<in> set ys then Inr None
      else Inr (Some (foldl max (the (hd ys)) (map the (tl ys)))))"

text \<open>Line 274-276 and 290-291: the fit of one normalized histogram.\<close>

definition fit_histogram :: "glint \<Rightarrow> real list \<Rightarrow> npfloat list \<Rightarrow> py_error + real list" where
  "fit_histogram g bin_hist_cent h =
     err_bind (py_max h) (\<lambda>m. curve_fit g (map Some bin_hist_cent) h [m, Some 0, Some 50])"

record histograms =
  bin_hist :: "real list"
  bin_hist_cent :: "real list"
  super_hist :: "npfloat list list"
  global_hist :: "npfloat list"
  params :: "real list list"
  hist_to_save :: "npfloat list list list"
  time_series :: "traces option"

text \<open>Line 222-282, the part of \<open>check_dark\<close> without effects on the file system.\<close>

definition build_histograms ::
  "glint \<Rightarrow> string list \<Rightarrow> int \<Rightarrow> int \<Rightarrow> chan \<Rightarrow> py_error + histograms" where
  "build_histograms g dark_list edge_min edge_max sdc =
     err_bind (bin_edges edge_min edge_max) (\<lambda>edges.
       let cent = (case bin_step edge_min edge_max of None \<Rightarrow> []
                   | Some step \<Rightarrow> map (\<lambda>e. e + step / 2) (butlast edges))
       in err_bind (diag_loop g edges sdc dark_list
                      \<lparr>list_hist = [], hist_slices = [], series = None\<rparr>) (\<lambda>st.
          err_bind (sum_hist_slices (hist_slices st)) (\<lambda>counts.
            let sh = normalize_rows counts;
                lh = normalize_hist (sum_list_hist (list_hist st))
            in err_bind (err_map (\<lambda>i. fit_histogram g cent (sh ! i)) [0..<16]) (\<lambda>ps.
                 Inr \<lparr>bin_hist = edges, bin_hist_cent = cent, super_hist = sh,
                      global_hist = lh, params = ps,
                      hist_to_save = map (\<lambda>row. map2 (\<lambda>h e. [h, Some e]) row (butlast edges)) sh,
                      time_series = series st\<rparr>))))"

subsection \<open>\<open>check_dark\<close>: figures and drift (line 290-483)\<close>

text \<open>
  Rendering is not modelled; what is kept of the figures are the computations that can
  raise and the files that \<open>plt.savefig\<close> writes.
\<close>

text \<open>\<open>int(len(x)**0.5)\<close>.\<close>

definition isqrt :: "nat \<Rightarrow> nat" where
  "isqrt n = length (filter (\<lambda>k. k * k \<le> n) [1..<Suc n])"

definition np_mean_f :: "npfloat list \<Rightarrow> npfloat" where
  "np_mean_f xs = (if None \<in> set xs then None else np_mean (map the xs))"

definition np_std_f :: "npfloat list \<Rightarrow> npfloat" where
  "np_std_f xs =
     (case np_mean_f xs of None \<Rightarrow> None
      | Some m \<Rightarrow> map_option sqrt (np_mean (map (\<lambda>x. (the x - m)\<^sup>2) xs)))"

text \<open>
  \<open>np.histogram(a, bins=n)\<close> with a number of bins: \<open>n + 1\<close> edges over the range of the
  data, widened by one half on each side when the range is a point. \<open>ValueError\<close> when
  \<open>n\<close> is not positive or the data are not finite.
\<close>

definition np_histogram_auto :: "npfloat list \<Rightarrow> nat \<Rightarrow> py_error + nat list \<times> real list" where
  "np_histogram_auto a n =
     (if n = 0 \<or> None \<in> set a then Inl ValueError
      else let v = map the a;
               lo = (if v = [] then 0 else foldl min (hd v) (tl v));
               hi = (if v = [] then 1 else foldl max (hd v) (tl v));
               edges = (if lo = hi then linspace (lo - 0.5) (hi + 0.5) (Suc n)
                        else linspace lo hi (Suc n))
           in err_bind (np_histogram v edges) (\<lambda>h. Inr (h, edges)))"

text \<open>Line 347-353 and 373-381: histogram and fit of one single-pixel trace.\<close>

definition fit_trace :: "glint \<Rightarrow> npfloat list \<Rightarrow> py_error + real list" where
  "fit_trace g x =
     err_bind (np_histogram_auto x (isqrt (length x))) (\<lambda>(h, edges).
       let cent = map2 (\<lambda>e d. e + d / 2) (butlast edges) (np_diff edges);
           hn = normalize_hist h
       in err_bind (py_max hn) (\<lambda>m.
            curve_fit g (map Some cent) hn [m, np_mean_f x, np_std_f x]))"

text \<open>
  Line 405-417 and 459-467: means over windows of 10 consecutive frames, the remainder
  dropped, and a fit of degree 1. \<open>np.reshape(x, (-1, 10))\<close> raises \<open>ValueError\<close> on an empty
  array.
\<close>

definition binned :: "npfloat list \<Rightarrow> npfloat list" where
  "binned xs = map (\<lambda>j. np_mean_f (take 10 (drop (10 * j) xs))) [0..<length xs div 10]"

definition arange :: "nat \<Rightarrow> npfloat list" where
  "arange n = map (\<lambda>i. Some (real i)) [0..<n]"

definition drift_channel :: "glint \<Rightarrow> npfloat list list \<Rightarrow> nat \<Rightarrow> py_error + real list" where
  "drift_channel g dc i =
     polyfit g (binned (arange (length dc))) (binned (map (\<lambda>row. row ! i) dc))"

definition drift_fullframe :: "glint \<Rightarrow> npfloat list \<Rightarrow> py_error + real list" where
  "drift_fullframe g avg =
     (if length avg div 10 = 0 then Inl ValueError
      else polyfit g (binned (arange (length avg))) (binned avg))"

subsection \<open>\<open>check_dark\<close> (line 192-485)\<close>

definition save_histograms :: "string \<Rightarrow> histograms \<Rightarrow> filesystem \<Rightarrow> filesystem" where
  "save_histograms output_path h fs =
     (let fs1 = save_histo_dark (output_path @ ''hist_dk_params.hdf5'')
                  (nd2 (map (map Some) (params h))) ''channel'' fs;
          fs2 = save_histo_dark (output_path @ ''hist_dk_slices.hdf5'')
                  (nd3 (hist_to_save h)) ''channel'' fs1
      in save_histo_dark (output_path @ ''hist_dk.hdf5'')
           (nd2 [global_hist h, map Some (butlast (bin_hist h))]) ''global'' fs2)"

definition check_dark ::
  "glint \<Rightarrow> string list \<Rightarrow> npfloat list \<Rightarrow> int \<Rightarrow> int \<Rightarrow> chan \<Rightarrow> bool \<Rightarrow> string \<Rightarrow>
     (real list list \<times> npfloat list list list \<times> npfloat list list) io" where
  "check_dark g dark_list avg edge_min edge_max sdc save output_path =
     io_bind (io_lift (build_histograms g dark_list edge_min edge_max sdc)) (\<lambda>h.
     io_bind (io_when save (io_write (save_histograms output_path h))) (\<lambda>_.
     io_bind (io_lift (fit_histogram g (bin_hist_cent h) (global_hist h))) (\<lambda>_.
     io_bind (io_when save (io_write
                (savefig (output_path @ ''histogram_dark_fullframe.png'')))) (\<lambda>_.
     io_bind (io_when save (io_write (savefig (output_path @ ''histogram_dark.png'')))) (\<lambda>_.
     io_bind (io_when save (io_write
                (savefig (output_path @ ''histogram_dark_logscale.png'')))) (\<lambda>_.
     io_bind (io_lift (case time_series h of None \<Rightarrow> Inl NameError | Some t \<Rightarrow> Inr t)) (\<lambda>t.
     io_bind (io_lift (fit_trace g (dk56 t))) (\<lambda>_.
     io_bind (io_lift (fit_trace g (dk56bis t))) (\<lambda>_.
     io_bind (io_lift (err_map (drift_channel g (dark_current t)) [0..<16])) (\<lambda>_.
     io_bind (io_when save (io_write (savefig (output_path @ ''avg_time_lapse.png'')))) (\<lambda>_.
     io_bind (io_lift (drift_fullframe g avg)) (\<lambda>_.
     io_bind (io_when save (io_write
                (savefig (output_path @ ''avg_dark_fullframe.png'')))) (\<lambda>_.
     io_return (params h, hist_to_save h,
                [global_hist h, map Some (butlast (bin_hist h))]))))))))))))))"

subsection \<open>\<open>get_average_dark\<close> (line 113-189)\<close>

record acc =
  super_dark :: frame
  super_dark_channel :: chan
  nb_img :: real
  avg_dark :: "npfloat list option"
  spatial_axis :: "nat list option"

text \<open>
  Line 147-149. \<open>avg_dark\<close> and \<open>spatial_axis\<close> are not bound before the loop: \<open>None\<close>.
\<close>

definition acc_init :: acc where
  "acc_init = \<lparr>super_dark = zeros2 344 96, super_dark_channel = zeros3 96 16 20, nb_img = 0,
                avg_dark = None, spatial_axis = None\<rparr>"

text \<open>
  Line 151-170, one exposure. With \<open>monitor\<close>, \<open>np.vstack((avg_dark, \<dots>))\<close> raises \<open>NameError\<close>
  while \<open>avg_dark\<close> is unbound and the \<open>except\<close> block binds it.
\<close>

definition accumulate_file :: "glint \<Rightarrow> bool \<Rightarrow> string \<Rightarrow> acc \<Rightarrow> py_error + acc" where
  "accumulate_file g monitor f a =
     err_bind (Null g f) (\<lambda>dark.
     err_bind (getChannels g (data dark)) (\<lambda>slices.
       Inr \<lparr>super_dark = add2 (super_dark a) (sum_frames (data dark)),
            super_dark_channel = add3 (super_dark_channel a) (sum_slices slices),
            nb_img = nb_img a + real (nbimg dark),
            avg_dark = (if monitor
                        then (case avg_dark a of
                                None \<Rightarrow> Some (frame_means (data dark))
                              | Some av \<Rightarrow> Some (av @ frame_means (data dark)))
                        else avg_dark a),
            spatial_axis = Some [0..<length (data dark)]\<rparr>))"

fun accumulate :: "glint \<Rightarrow> bool \<Rightarrow> string list \<Rightarrow> acc \<Rightarrow> py_error + acc" where
  "accumulate g monitor [] a = Inr a"
| "accumulate g monitor (f # fs) a =
     err_bind (accumulate_file g monitor f a) (accumulate g monitor fs)"

text \<open>Line 172-177.\<close>

definition save_averages :: "string \<Rightarrow> frame \<Rightarrow> chan \<Rightarrow> filesystem \<Rightarrow> filesystem" where
  "save_averages output_path sd sdc fs =
     np_save (output_path @ ''superdarkchannel'') (nd3 (map (map (map Some)) sdc))
       (np_save (output_path @ ''superdark'') (nd2 (map (map Some) sd)) fs)"

definition finalize :: "acc \<Rightarrow> bool \<Rightarrow> string \<Rightarrow> (frame \<times> chan) io" where
  "finalize a save output_path =
     (if nb_img a \<noteq> 0
      then (let sd = div2 (super_dark a) (nb_img a);
                sdc = div3 (super_dark_channel a) (nb_img a)
            in io_bind (io_when save (io_write (save_averages output_path sd sdc)))
                 (\<lambda>_. io_return (sd, sdc)))
      else io_return (super_dark a, super_dark_channel a))"

datatype dark_result =
    Averages frame chan
  | Monitored frame chan "real list list" "npfloat list list list" "npfloat list list"

text \<open>
  Line 179-189. The call of \<open>check_dark\<close> reads \<open>avg_dark\<close> and \<open>spatial_axis\<close>: \<open>NameError\<close>
  when they are unbound.
\<close>

definition get_average_dark ::
  "glint \<Rightarrow> string \<Rightarrow> string \<Rightarrow> int option \<times> int option \<Rightarrow> bool \<Rightarrow> bool \<Rightarrow> int \<times> int \<Rightarrow>
     string \<Rightarrow> dark_result io" where
  "get_average_dark g data_path output_path nb_files save monitor edges keyword =
     (let edge_min = fst edges; edge_max = snd edges
      in io_bind (os_listdir data_path) (\<lambda>listing.
         let dark_list = select_dark_list data_path listing keyword nb_files
         in io_bind (ensure_output_dir output_path) (\<lambda>_.
            io_bind (io_lift (accumulate g monitor dark_list acc_init)) (\<lambda>a.
            io_bind (finalize a save output_path) (\<lambda>(sd, sdc).
              if monitor
              then (case avg_dark a of
                      None \<Rightarrow> io_lift (Inl NameError)
                    | Some av \<Rightarrow>
                        (case spatial_axis a of
                           None \<Rightarrow> io_lift (Inl NameError)
                         | Some sp \<Rightarrow>
                             io_bind (check_dark g dark_list av edge_min edge_max sdc save
                                        output_path)
                               (\<lambda>(ps, hc, hg). io_return (Monitored sd sdc ps hc hg))))
              else io_return (Averages sd sdc))))))"

subsection \<open>Inputs for the worked examples\<close>

text \<open>
  A loader whose exposures hold no frame, and a data folder with one dark file and one text
  file, in a file system that refuses no directory.
\<close>

definition empty_glint :: glint where
  "empty_glint =
     \<lparr>Null = (\<lambda>f. Inr \<lparr>data = [], nbimg = 0\<rparr>), getChannels = (\<lambda>d. Inr []),
      least_squares = (\<lambda>x y p0. Inr (map (\<lambda>p. case p of None \<Rightarrow> 0 | Some v \<Rightarrow> v) p0)),
      polyfit = (\<lambda>x y. Inr [0, 0])\<rparr>"

definition small_fs :: filesystem where
  "small_fs =
     \<lparr>listdir = (\<lambda>p. if p = ''data/'' then Inr [''dark_01.mat'', ''notes.txt'']
                      else Inl OSError),
      paths = {(False, [''data'']), (False, [''data'', ''dark_01.mat'']),
               (False, [''data'', ''notes.txt''])},
      contents = [(False, [''data'', ''dark_01.mat'']) \<mapsto> Other,
                  (False, [''data'', ''notes.txt'']) \<mapsto> Other],
      mkdir_error = (\<lambda>p. None)\<rparr>"

text \<open>The same file system on a medium on which no directory can be created.\<close>

definition locked_fs :: filesystem where
  "locked_fs = small_fs\<lparr>mkdir_error := (\<lambda>p. Some OSError)\<rparr>"

text \<open>A channel slice of one frame in which every sample has the value \<open>v\<close>.\<close>

definition flat_slice :: "real \<Rightarrow> chan" where
  "flat_slice v = replicate 96 (replicate 16 (replicate 20 v))"

text \<open>
  A loader whose exposures hold one frame of a constant value, \<open>-1\<close> in the file
  \<open>data/dark_01.mat\<close> and \<open>1\<close> in every other file, with channel slices of that value.
\<close>

definition flat_value :: "string \<Rightarrow> real" where
  "flat_value f = (if f = ''data/dark_01.mat'' then - 1 else 1)"

definition flat_glint :: glint where
  "flat_glint =
     \<lparr>Null = (\<lambda>f. Inr \<lparr>data = [replicate 344 (replicate 96 (flat_value f))], nbimg = 1\<rparr>),
      getChannels = (\<lambda>d. Inr (map (\<lambda>fr. flat_slice (fr ! 0 ! 0)) d)),
      least_squares = (\<lambda>x y p0. Inr (map (\<lambda>p. case p of None \<Rightarrow> 0 | Some v \<Rightarrow> v) p0)),
      polyfit = (\<lambda>x y. Inr [0, 0])\<rparr>"

subsection \<open>Unchanged paths\<close>

text \<open>
  \<open>same_at p fs fs'\<close>: the entry that \<open>p\<close> names exists in \<open>fs'\<close> exactly if it exists in
  \<open>fs\<close>, with the same contents. \<open>keeps p m\<close>: the computation \<open>m\<close> leaves \<open>p\<close> as it is,
  whether it returns or raises.
\<close>

definition same_at :: "string \<Rightarrow> filesystem \<Rightarrow> filesystem \<Rightarrow> bool" where
  "same_at p fs fs' =
     (contents fs' (entry_of p) = contents fs (entry_of p) \<and>
      (entry_of p \<in> paths fs') = (entry_of p \<in> paths fs))"

definition keeps :: "string \<Rightarrow> 'a io \<Rightarrow> bool" where
  "keeps p m = (\<forall>fs. same_at p fs (snd (m fs)))"

text \<open>
  \<open>ancestors p\<close>: the entry that \<open>p\<close> names and the directories on the way to it, that is,
  the entries of the non-empty prefixes of the components of \<open>p\<close>.
\<close>

definition ancestors :: "string \<Rightarrow> entry set" where
  "ancestors p = (\<lambda>cs. (fst (entry_of p), cs)) ` (set (prefixes (components p)) - {[]})"

text \<open>
  \<open>dir_prefix q name\<close>: \<open>q\<close> is a proper, non-empty prefix of \<open>name\<close> that ends with a
  separator or is followed by one.
\<close>

definition dir_prefix :: "string \<Rightarrow> string \<Rightarrow> bool" where
  "dir_prefix q name =
     (q \<noteq> [] \<and> strict_prefix q name \<and> (last q = CHR ''/'' \<or> name ! length q = CHR ''/''))"

section \<open>Properties\<close>

lemma str_in_sublist: "str_in k f \<longleftrightarrow> sublist k f"
  by (induction f) (auto simp: sublist_Cons_right)

lemma str_in_iff: "str_in k f \<longleftrightarrow> (\<exists>pre suf. f = pre @ k @ suf)"
  by (simp add: str_in_sublist sublist_def)

subsection \<open>File selection\<close>

text \<open>
  C7 (as stated, fails): a name that contains the keyword and does not end in \<open>.txt\<close> would
  be selected even when \<open>.txt\<close> occurs inside it. The name \<open>dark.txt.bak\<close> contains the
  keyword \<open>dark\<close> and has no \<open>.txt\<close> suffix, and the filter drops it.
\<close>

theorem C7_txt_inside_name_counterexample:
  "str_in ''dark'' ''dark.txt.bak'' \<and> \<not> suffix ''.txt'' ''dark.txt.bak'' \<and>
   filtered_files ''dark'' [''dark.txt.bak''] = []"
  by (simp add: filtered_files_def keep_file_def suffix_to_prefix)

text \<open>
  C7 (amended): a file name of the listing is selected, before the index-range slice, if and
  only if it contains the keyword as a substring and does not contain \<open>.txt\<close> as a substring
  anywhere in the name.
\<close>

theorem C7_selected_iff_keyword_and_no_txt_substring:
  "f \<in> set (filtered_files keyword listing) \<longleftrightarrow>
     f \<in> set listing \<and> (\<exists>pre suf. f = pre @ keyword @ suf) \<and>
     \<not> (\<exists>pre suf. f = pre @ ''.txt'' @ suf)"
  by (simp add: filtered_files_def keep_file_def str_in_iff)

theorem C7_selected_witness:
  "''dark_01.mat'' \<in> set (filtered_files ''dark'' [''dark_01.mat'', ''notes.txt'']) \<and>
   ''notes.txt'' \<notin> set (filtered_files ''dark'' [''dark_01.mat'', ''notes.txt''])"
  using C7_selected_iff_keyword_and_no_txt_substring
          [of "''dark_01.mat''" "''dark''" "[''dark_01.mat'', ''notes.txt'']"]
  by (simp add: filtered_files_def keep_file_def)

subsection \<open>Bin edges\<close>

lemma linspace_nth:
  "i < num \<Longrightarrow> linspace a b num ! i = a + real i * linspace_delta a b num"
  by (simp add: linspace_def)

lemma length_linspace: "length (linspace a b num) = num"
  by (simp add: linspace_def)

lemma linspace_widths:
  "np_diff (linspace a b num) = replicate (num - 1) (linspace_delta a b num)"
proof (rule nth_equalityI)
  show "length (np_diff (linspace a b num)) = length (replicate (num - 1) (linspace_delta a b num))"
    by (simp add: np_diff_def length_linspace)
next
  fix i assume "i < length (np_diff (linspace a b num))"
  then have i: "Suc i < num"
    by (simp add: np_diff_def length_linspace)
  then have "np_diff (linspace a b num) ! i = linspace a b num ! Suc i - linspace a b num ! i"
    by (simp add: np_diff_def length_linspace nth_tl)
  also have "\<dots> = linspace_delta a b num"
    using i by (simp add: linspace_nth algebra_simps)
  finally show "np_diff (linspace a b num) ! i = replicate (num - 1) (linspace_delta a b num) ! i"
    using i by simp
qed

lemma linspace_increasing:
  assumes "0 < linspace_delta a b num"
  shows "sorted_wrt (<) (linspace a b num)"
proof -
  have "linspace a b num ! i < linspace a b num ! j" if "i < j" "j < num" for i j
    using that assms by (simp add: linspace_nth)
  then show ?thesis
    by (simp add: sorted_wrt_iff_nth_less length_linspace)
qed

text \<open>
  C5 (as stated, fails): the bin edges would have unit width. For \<open>edge_min = 0\<close> and
  \<open>edge_max = 2\<close> the three edges are \<open>-1/2, 1, 5/2\<close>, and consecutive edges differ by
  \<open>3/2\<close>.
\<close>

theorem C5_unit_width_counterexample:
  "(0::int) < 2 \<and> bin_edges 0 2 = Inr [- 1/2, 1, 5/2] \<and> np_diff [- 1/2, 1, 5/2] = [3/2, 3/2]"
  by (simp add: bin_edges_def linspace_def linspace_delta_def np_diff_def upt_rec
        numeral_2_eq_2 numeral_3_eq_3)

text \<open>
  C5 (amended): for integer bounds \<open>edge_min < edge_max\<close> the bin-edge sequence has
  \<open>edge_max - edge_min + 1\<close> points, is strictly increasing, and every pair of consecutive
  edges differs by the same width \<open>(edge_max - edge_min + 1) / (edge_max - edge_min)\<close>, which
  is also the step that \<open>linspace\<close> returns (in exact arithmetic).
\<close>

theorem C5_bin_edges_increasing_constant_width:
  assumes "edge_min < edge_max"
  shows "\<exists>es. bin_edges edge_min edge_max = Inr es \<and>
           length es = nat (edge_max - edge_min + 1) \<and>
           np_diff es = replicate (nat (edge_max - edge_min))
              (real_of_int (edge_max - edge_min + 1) / real_of_int (edge_max - edge_min)) \<and>
           sorted_wrt (<) es \<and>
           bin_step edge_min edge_max =
              Some (real_of_int (edge_max - edge_min + 1) / real_of_int (edge_max - edge_min))"
proof -
  let ?n = "nat (edge_max - edge_min + 1)"
  let ?a = "real_of_int edge_min - 0.5" and ?b = "real_of_int edge_max + 0.5"
  let ?w = "real_of_int (edge_max - edge_min + 1) / real_of_int (edge_max - edge_min)"
  have n1: "?n - 1 = nat (edge_max - edge_min)" using assms by simp
  have dl: "linspace_delta ?a ?b ?n = ?w"
    using assms by (simp add: linspace_delta_def n1)
  have pos: "0 < ?w" using assms by simp
  have e: "bin_edges edge_min edge_max = Inr (linspace ?a ?b ?n)"
    using assms by (simp add: bin_edges_def)
  have w: "np_diff (linspace ?a ?b ?n) = replicate (nat (edge_max - edge_min)) ?w"
    by (simp only: linspace_widths n1 dl)
  have s: "sorted_wrt (<) (linspace ?a ?b ?n)"
    by (rule linspace_increasing) (simp only: dl pos)
  have big: "\<not> ?n \<le> 1" using assms by simp
  have st: "bin_step edge_min edge_max = Some ?w"
    unfolding bin_step_def linspace_step_def using big dl by (simp only: if_False)
  show ?thesis using e w s st by (simp add: length_linspace)
qed

theorem C5_bin_edges_witness:
  "(-50::int) < 50 \<and>
   (\<exists>es. bin_edges (-50) 50 = Inr es \<and> length es = 101 \<and>
     np_diff es = replicate 100 (101 / 100) \<and> sorted_wrt (<) es \<and>
     bin_step (-50) 50 = Some (101 / 100))"
  using C5_bin_edges_increasing_constant_width [of "-50" 50] by simp

subsection \<open>Creating the output directory\<close>

lemmas io_defs = io_bind_def io_lift_def io_return_def io_write_def io_when_def os_listdir_def

declare makedirs.simps [simp del]

lemma path_split_cases:
  assumes "path_split p = (h, t)"
  shows "(h = [] \<and> t = p) \<or>
         (h \<noteq> [] \<and> last h = CHR ''/'' \<and> p = h @ t) \<or>
         (h \<noteq> [] \<and> last h \<noteq> CHR ''/'' \<and> (\<exists>s. p = h @ CHR ''/'' # s @ t))"
proof -
  define d where "d = dropWhile (\<lambda>c. c \<noteq> CHR ''/'') (rev p)"
  define u where "u = takeWhile (\<lambda>c. c \<noteq> CHR ''/'') (rev p)"
  have p: "p = rev d @ rev u"
  proof -
    have "rev (u @ d) = p"
      unfolding u_def d_def takeWhile_dropWhile_id by simp
    then show ?thesis by simp
  qed
  have ps: "path_split p =
              (if rev d \<noteq> [] \<and> rev d \<noteq> replicate (length (rev d)) CHR ''/''
               then rev (dropWhile (\<lambda>c. c = CHR ''/'') (rev (rev d))) else rev d, rev u)"
    unfolding path_split_def Let_def d_def u_def by (rule refl)
  have t: "t = rev u"
    using assms [unfolded ps] by simp
  have h: "h = (if rev d \<noteq> [] \<and> rev d \<noteq> replicate (length (rev d)) CHR ''/''
                then rev (dropWhile (\<lambda>c. c = CHR ''/'') d) else rev d)"
    using assms [unfolded ps] by auto
  show ?thesis
  proof (cases "d = []")
    case True
    then show ?thesis using p t h by simp
  next
    case False
    then have hd: "hd d = CHR ''/''"
      using hd_dropWhile [of "\<lambda>c. c \<noteq> CHR ''/''" "rev p"] by (simp add: d_def)
    show ?thesis
    proof (cases "rev d = replicate (length (rev d)) CHR ''/''")
      case True
      then have "h = rev d" using h by simp
      moreover have "last (rev d) = CHR ''/''"
        using False hd by (simp add: last_rev)
      ultimately show ?thesis using False p t by simp
    next
      case ns: False
      define s where "s = takeWhile (\<lambda>c. c = CHR ''/'') d"
      define d' where "d' = dropWhile (\<lambda>c. c = CHR ''/'') d"
      have d: "d = s @ d'" by (simp add: s_def d'_def)
      have hh: "h = rev d'" using h ns False by (simp add: d'_def)
      have "\<forall>c\<in>set s. c = CHR ''/''"
        using set_takeWhileD [of _ "\<lambda>c. c = CHR ''/''" d] by (auto simp: s_def)
      then have s_all: "s = replicate (length s) CHR ''/''"
        by (simp add: replicate_length_same)
      have s_ne: "s \<noteq> []"
        using False hd by (cases d) (simp_all add: s_def)
      have d'_ne: "d' \<noteq> []"
      proof
        assume "d' = []"
        then have "rev d = rev s" using d by simp
        also have "\<dots> = replicate (length s) CHR ''/''"
          by (subst s_all) (simp only: rev_replicate)
        finally have "rev d = replicate (length (rev d)) CHR ''/''"
          using \<open>d' = []\<close> d by simp
        with ns show False by simp
      qed
      then have "hd d' \<noteq> CHR ''/''"
        using hd_dropWhile [of "\<lambda>c. c = CHR ''/''" d] by (simp add: d'_def)
      then have last: "last h \<noteq> CHR ''/''"
        using d'_ne by (simp add: hh last_rev)
      have "rev s = replicate (length s) CHR ''/''"
        by (subst s_all) (simp only: rev_replicate)
      then obtain s' where "rev s = CHR ''/'' # s'"
        using s_ne by (cases "length s") auto
      then have "p = h @ CHR ''/'' # s' @ t"
        using p d hh t by simp
      then show ?thesis using last d'_ne hh by auto
    qed
  qed
qed

lemma dir_prefix_trans: "dir_prefix q h \<Longrightarrow> prefix h name \<Longrightarrow> dir_prefix q name"
  by (auto simp: dir_prefix_def prefix_def strict_prefix_def nth_append)

lemma path_split_dir_prefix:
  assumes "path_split p = (h, t)" "h \<noteq> []" "t \<noteq> []"
  shows "dir_prefix h p"
  using path_split_cases [OF assms(1)] assms(2,3)
  by (auto simp: dir_prefix_def strict_prefix_def prefix_def nth_append)

lemma path_split_prefix:
  assumes "path_split p = (h, t)"
  shows "prefix h p"
  using path_split_cases [OF assms(1)] by (auto simp: prefix_def)

lemma makedirs_split_dir_prefix:
  assumes "fst (makedirs_split name) \<noteq> []" "snd (makedirs_split name) \<noteq> []"
  shows "dir_prefix (fst (makedirs_split name)) name"
proof (cases "snd (path_split name) = []")
  case True
  then have m: "makedirs_split name = path_split (fst (path_split name))"
    by (simp add: makedirs_split_def split_def)
  have "dir_prefix (fst (makedirs_split name)) (fst (path_split name))"
    using assms
    by (intro path_split_dir_prefix [of _ _ "snd (makedirs_split name)"]) (simp_all add: m)
  moreover have "prefix (fst (path_split name)) name"
    by (rule path_split_prefix [of _ _ "snd (path_split name)"]) simp
  ultimately show ?thesis by (rule dir_prefix_trans)
next
  case False
  then have m: "makedirs_split name = path_split name"
    by (simp add: makedirs_split_def split_def)
  show ?thesis
    using assms
    by (intro path_split_dir_prefix [of _ _ "snd (makedirs_split name)"]) (simp_all add: m)
qed

text \<open>The components of a name, and the directories on the way to it.\<close>

lemma split_sep_ne [simp]: "split_sep p \<noteq> []"
  by (induction p) simp_all

lemma split_sep_Cons:
  "split_sep (c # cs) =
     (if c = CHR ''/'' then [] # split_sep cs
      else case split_sep cs of [] \<Rightarrow> [[c]] | w # ws \<Rightarrow> (c # w) # ws)"
  by (cases "split_sep cs") simp_all

lemma split_sep_append:
  "split_sep (a @ b)
     = butlast (split_sep a) @ (last (split_sep a) @ hd (split_sep b)) # tl (split_sep b)"
proof (induction a)
  case Nil
  then show ?case by (cases "split_sep b") simp_all
next
  case (Cons c a)
  then show ?case
    by (cases "split_sep a") (auto simp: butlast_append)
qed

lemma split_sep_slash: "split_sep (a @ CHR ''/'' # b) = split_sep a @ split_sep b"
  by (simp add: split_sep_append [of a])

lemma split_sep_name: "CHR ''/'' \<notin> set s \<Longrightarrow> split_sep s = [s]"
  by (induction s) auto

lemma components_slash: "components (a @ CHR ''/'' # b) = components a @ components b"
  by (simp add: components_def split_sep_slash)

lemma components_trailing: "components (a @ ''/'') = components a"
  using components_slash [of a "[]"] by (simp add: components_def)

lemma dir_prefix_components:
  assumes "dir_prefix q name"
  shows "prefix (components q) (components name) \<and> fst (entry_of q) = fst (entry_of name)"
proof -
  from assms have q: "q \<noteq> []" and sp: "strict_prefix q name"
    and l: "last q = CHR ''/'' \<or> name ! length q = CHR ''/''"
    by (simp_all add: dir_prefix_def)
  from sp obtain r where n: "name = q @ r" and r: "r \<noteq> []"
    by (auto simp: strict_prefix_def prefix_def)
  have "name ! length q = hd r"
    using r by (simp add: n nth_append hd_conv_nth)
  with l have s: "last q = CHR ''/'' \<or> hd r = CHR ''/''" by simp
  have "fst (entry_of q) = fst (entry_of name)"
    using q by (simp add: entry_of_def n)
  moreover have "prefix (components q) (components name)"
  proof (cases "hd r = CHR ''/''")
    case True
    then obtain r' where "r = CHR ''/'' # r'" using r by (cases r) auto
    then show ?thesis by (simp add: n components_slash)
  next
    case False
    then have "last q = CHR ''/''" using s by simp
    then obtain q' where q': "q = q' @ ''/''"
      using q by (metis append_butlast_last_id)
    have "components name = components q' @ components r"
      by (simp add: n q' components_slash)
    moreover have "components q = components q'"
      by (simp add: q' components_trailing)
    ultimately show ?thesis by simp
  qed
  ultimately show ?thesis by simp
qed

lemma ancestors_iff:
  "e \<in> ancestors p \<longleftrightarrow>
     fst e = fst (entry_of p) \<and> snd e \<noteq> [] \<and> prefix (snd e) (components p)"
  by (cases e) (auto simp: ancestors_def image_iff)

lemma entry_in_ancestors: "components p \<noteq> [] \<Longrightarrow> entry_of p \<in> ancestors p"
  by (simp add: ancestors_iff entry_of_def)

lemma ancestors_mono:
  assumes "dir_prefix q name"
  shows "ancestors q \<subseteq> ancestors name"
  using dir_prefix_components [OF assms] by (auto simp: ancestors_iff)

text \<open>\<open>mkdir\<close> and \<open>makedirs\<close> write no file, and add directories only.\<close>

lemma mkdir_frame:
  "contents (snd (mkdir name fs)) = contents fs \<and>
   paths fs \<subseteq> paths (snd (mkdir name fs)) \<and>
   paths (snd (mkdir name fs)) \<subseteq> paths fs \<union> ancestors name"
proof -
  have "entry_of name \<in> ancestors name" if "snd (entry_of name) \<noteq> []"
    using that by (intro entry_in_ancestors) (simp add: entry_of_def)
  then show ?thesis
    by (auto simp: mkdir_def Let_def split: option.splits)
qed

lemma makedirs_frame:
  "contents (snd (makedirs name fs)) = contents fs \<and>
   paths fs \<subseteq> paths (snd (makedirs name fs)) \<and>
   paths (snd (makedirs name fs)) \<subseteq> paths fs \<union> ancestors name"
proof (induction name fs rule: makedirs.induct)
  case (1 name fs)
  let ?head = "fst (makedirs_split name)" and ?tail = "snd (makedirs_split name)"
  show ?case
  proof (cases "?head \<noteq> [] \<and> ?tail \<noteq> [] \<and> \<not> path_exists fs ?head")
    case False
    then have "makedirs name fs = mkdir name fs"
      by (subst makedirs.simps) (auto simp: Let_def)
    then show ?thesis using mkdir_frame [of name fs] by auto
  next
    case True
    obtain r fs1 where r: "makedirs ?head fs = (r, fs1)" by (cases "makedirs ?head fs")
    have ih: "contents fs1 = contents fs \<and> paths fs \<subseteq> paths fs1 \<and>
              paths fs1 \<subseteq> paths fs \<union> ancestors ?head"
      using "1.IH" [OF refl refl True] r by simp
    have "dir_prefix ?head name"
      using True by (intro makedirs_split_dir_prefix) simp_all
    then have sub: "ancestors ?head \<subseteq> ancestors name"
      by (rule ancestors_mono)
    have "snd (makedirs name fs) = fs1 \<or> snd (makedirs name fs) = snd (mkdir name fs1)"
      using True r by (subst (1 2) makedirs.simps) (auto simp: Let_def split: sum.splits)
    moreover have "paths fs1 \<subseteq> paths fs \<union> ancestors name"
      using ih sub by blast
    moreover have "paths (snd (mkdir name fs1)) \<subseteq> paths fs \<union> ancestors name"
      using ih sub mkdir_frame [of name fs1] by blast
    moreover have "paths fs \<subseteq> paths (snd (mkdir name fs1))"
      using ih mkdir_frame [of name fs1] by blast
    ultimately show ?thesis
      using ih mkdir_frame [of name fs1] by auto
  qed
qed

lemma ensure_output_dir_frame:
  "contents (snd (ensure_output_dir op fs)) = contents fs \<and>
   paths fs \<subseteq> paths (snd (ensure_output_dir op fs)) \<and>
   paths (snd (ensure_output_dir op fs)) \<subseteq> paths fs \<union> ancestors op"
  using makedirs_frame [of op fs] by (auto simp: ensure_output_dir_def)

lemma ensure_output_dir_exists:
  "path_exists fs op \<Longrightarrow> ensure_output_dir op fs = (Inr (), fs)"
  by (simp add: ensure_output_dir_def)

text \<open>\<open>os.makedirs('')\<close> raises.\<close>

lemma ensure_output_dir_empty: "ensure_output_dir [] fs = (Inl OSError, fs)"
  by (simp add: ensure_output_dir_def path_exists_def makedirs.simps makedirs_split_def
        path_split_def mkdir_def)

lemmas path_eval = ensure_output_dir_def path_exists_def names_directory_def makedirs.simps
  mkdir_def makedirs_split_def path_split_def entry_of_def components_def Let_def

subsection \<open>The accumulator\<close>

lemma zeros_add2 [simp]: "add2 (zeros2 m n) (zeros2 m n) = zeros2 m n"
  by (simp add: add2_def zeros2_def)

lemma zeros_add3 [simp]: "add3 (zeros3 l m n) (zeros3 l m n) = zeros3 l m n"
  by (simp add: add3_def zeros3_def)

lemma small_fs_listdir: "listdir small_fs ''data/'' = Inr [''dark_01.mat'', ''notes.txt'']"
  by (simp add: small_fs_def)

lemma small_fs_dark_list:
  "select_dark_list ''data/'' [''dark_01.mat'', ''notes.txt''] ''dark'' (None, None)
     = [''data/dark_01.mat'']"
  by (simp add: select_dark_list_def filtered_files_def keep_file_def py_slice_def)

lemma small_fs_flat_list:
  "select_dark_list ''data/'' [''dark_01.mat'', ''notes.txt''] ''flat'' (None, None) = []"
  by (simp add: select_dark_list_def filtered_files_def keep_file_def py_slice_def)

lemma small_fs_out:
  "ensure_output_dir ''out/'' small_fs
     = (Inr (), small_fs\<lparr>paths := insert (False, [''out'']) (paths small_fs)\<rparr>)"
  by (simp add: path_eval small_fs_def)

lemma small_fs_nested:
  "ensure_output_dir ''a/b/out/'' small_fs
     = (Inr (), small_fs\<lparr>paths := insert (False, [''a'', ''b'', ''out''])
                                    (insert (False, [''a'', ''b''])
                                      (insert (False, [''a'']) (paths small_fs)))\<rparr>)"
  by (simp add: path_eval small_fs_def)

text \<open>Names of one entry, and the names that always or never exist.\<close>

lemma small_fs_names:
  "path_exists small_fs ''data'' \<and> path_exists small_fs ''./data//'' \<and>
   path_exists small_fs ''/'' \<and> path_exists small_fs ''.'' \<and> \<not> path_exists small_fs []"
  by (simp add: path_exists_def entry_of_def components_def small_fs_def)

text \<open>
  A file is not a directory: named with a trailing separator it does not exist, and neither
  it nor a directory below it can be created.
\<close>

lemma small_fs_file_in_the_way:
  "path_exists small_fs ''data/notes.txt'' \<and> \<not> path_exists small_fs ''data/notes.txt/'' \<and>
   ensure_output_dir ''data/notes.txt/'' small_fs = (Inl FileExistsError, small_fs) \<and>
   ensure_output_dir ''data/notes.txt/out/'' small_fs = (Inl OSError, small_fs)"
  by (simp add: path_eval split_sep_Cons small_fs_def del: split_sep.simps(2))

lemma locked_fs_listdir: "listdir locked_fs ''data/'' = Inr [''dark_01.mat'', ''notes.txt'']"
  by (simp add: locked_fs_def small_fs_def)

lemma locked_fs_out: "ensure_output_dir ''out/'' locked_fs = (Inl OSError, locked_fs)"
  by (simp add: path_eval locked_fs_def small_fs_def)

lemma accumulate_empty_glint:
  "accumulate empty_glint monitor [''data/dark_01.mat''] acc_init
     = Inr \<lparr>super_dark = zeros2 344 96, super_dark_channel = zeros3 96 16 20, nb_img = 0,
            avg_dark = (if monitor then Some [] else None), spatial_axis = Some []\<rparr>"
  by (simp add: accumulate_file_def err_bind_def empty_glint_def acc_init_def sum_frames_def
        sum_slices_def frame_means_def)

text \<open>
  C1 (the code departs from the claim): a run in which the selected exposures contribute a
  total frame count of zero should skip the division and return the two zero arrays without
  raising. With monitoring on and a keyword that selects no file, the loop ends with the
  frame count zero and the function raises \<open>NameError\<close>: \<open>avg_dark\<close>, which the call of
  \<open>check_dark\<close> reads, is bound inside the loop only.
\<close>

theorem C1_zero_frames_monitor_failing_input:
  "select_dark_list ''data/'' [''dark_01.mat'', ''notes.txt''] ''flat'' (None, None) = [] \<and>
   accumulate empty_glint True [] acc_init = Inr acc_init \<and>
   nb_img acc_init = 0 \<and>
   fst (get_average_dark empty_glint ''data/'' ''out/'' (None, None) False True (-50, 50)
          ''flat'' small_fs) = Inl NameError"
  by (simp add: small_fs_flat_list small_fs_listdir small_fs_out get_average_dark_def
        finalize_def acc_init_def io_defs)

text \<open>
  C4 (as stated, fails): a keyword that matches no file would raise a configuration error
  before any processing. With the keyword \<open>flat\<close> no file of the folder is selected, and the
  function returns the zero arrays.
\<close>

theorem C4_no_match_returns_counterexample:
  "listdir small_fs ''data/'' = Inr [''dark_01.mat'', ''notes.txt''] \<and>
   filtered_files ''flat'' [''dark_01.mat'', ''notes.txt''] = [] \<and>
   fst (get_average_dark empty_glint ''data/'' ''out/'' (None, None) False False (-50, 50)
          ''flat'' small_fs)
     = Inr (Averages (zeros2 344 96) (zeros3 96 16 20))"
proof -
  have "filtered_files ''flat'' [''dark_01.mat'', ''notes.txt''] = []"
    by (simp add: filtered_files_def keep_file_def)
  moreover have "fst (get_average_dark empty_glint ''data/'' ''out/'' (None, None) False False
                        (-50, 50) ''flat'' small_fs)
                   = Inr (Averages (zeros2 344 96) (zeros3 96 16 20))"
    by (simp add: small_fs_flat_list small_fs_listdir small_fs_out get_average_dark_def
          finalize_def acc_init_def io_defs)
  ultimately show ?thesis by (simp add: small_fs_listdir)
qed

text \<open>
  C4 (amended): for every run of \<open>get_average_dark\<close> with monitoring off in which the data
  folder is listed and the keyword filter matches zero of its files, the empty selection
  raises nothing. No exposure is loaded (the result is the same for every loader), and the
  run ends as the creation of the output directory ends: with the error of \<open>os.makedirs\<close>
  when that fails, and with the two zero arrays otherwise.
\<close>

theorem C4_no_match_returns_zero_arrays:
  assumes "listdir fs data_path = Inr listing"
    and "filtered_files keyword listing = []"
  shows "get_average_dark g data_path output_path nb_files save False edges keyword fs
           = (case ensure_output_dir output_path fs of
                (Inl e, fs') \<Rightarrow> (Inl e, fs')
              | (Inr u, fs') \<Rightarrow> (Inr (Averages (zeros2 344 96) (zeros3 96 16 20)), fs'))"
  using assms
  by (simp add: get_average_dark_def finalize_def acc_init_def io_defs select_dark_list_def
        py_slice_def split: prod.splits sum.splits)

theorem C4_no_match_witness:
  "get_average_dark empty_glint ''data/'' ''out/'' (Some 0, Some 3) True False (0, 10)
     ''superdark'' small_fs
   = (Inr (Averages (zeros2 344 96) (zeros3 96 16 20)),
      small_fs\<lparr>paths := insert (False, [''out'']) (paths small_fs)\<rparr>) \<and>
   get_average_dark empty_glint ''data/'' '''' (Some 0, Some 3) True False (0, 10)
     ''superdark'' small_fs
   = (Inl OSError, small_fs) \<and>
   get_average_dark empty_glint ''data/'' ''out/'' (Some 0, Some 3) True False (0, 10)
     ''superdark'' locked_fs
   = (Inl OSError, locked_fs)"
proof -
  have 1: "filtered_files ''superdark'' [''dark_01.mat'', ''notes.txt''] = []"
    by (simp add: filtered_files_def keep_file_def)
  show ?thesis
    using C4_no_match_returns_zero_arrays [OF small_fs_listdir 1, of empty_glint "''out/''"]
      C4_no_match_returns_zero_arrays [OF small_fs_listdir 1, of empty_glint "''''"]
      C4_no_match_returns_zero_arrays [OF locked_fs_listdir 1, of empty_glint "''out/''"]
    by (simp add: small_fs_out locked_fs_out
          ensure_output_dir_empty)
qed

text \<open>
  C10: with monitoring on and an empty selected exposure list, \<open>get_average_dark\<close> raises
  instead of returning a result: the error of \<open>os.makedirs\<close> when the creation of the output
  directory fails, and otherwise \<open>NameError\<close> at the call of \<open>check_dark\<close>, after the output
  directory was created.
\<close>

theorem C10_monitor_empty_list_raises:
  assumes "listdir fs data_path = Inr listing"
    and "select_dark_list data_path listing keyword nb_files = []"
  shows "get_average_dark g data_path output_path nb_files save True edges keyword fs
           = (case ensure_output_dir output_path fs of
                (Inl e, fs') \<Rightarrow> (Inl e, fs')
              | (Inr u, fs') \<Rightarrow> (Inl NameError, fs')) \<and>
         (\<exists>e. fst (get_average_dark g data_path output_path nb_files save True edges keyword fs)
                 = Inl e)"
  using assms
  by (simp add: get_average_dark_def finalize_def acc_init_def io_defs
        split: prod.splits sum.splits)

theorem C10_monitor_empty_list_witness:
  "get_average_dark empty_glint ''data/'' ''out/'' (Some 1, None) True True (-50, 50) ''dark''
     small_fs
   = (Inl NameError, small_fs\<lparr>paths := insert (False, [''out'']) (paths small_fs)\<rparr>)"
proof -
  have 1: "select_dark_list ''data/'' [''dark_01.mat'', ''notes.txt''] ''dark'' (Some 1, None) = []"
    by (simp add: select_dark_list_def filtered_files_def keep_file_def py_slice_def
          slice_bound_def)
  show ?thesis
    using C10_monitor_empty_list_raises [OF small_fs_listdir 1, of empty_glint "''out/''"]
    by (simp add: small_fs_out)
qed

text \<open>
  C8 (as stated, fails): with \<open>save\<close> and \<open>monitor\<close> unset the function would leave the file
  system unchanged, creating no directory. The output directory \<open>out/\<close> does not exist
  before the run and exists after it.
\<close>

theorem C8_creates_directory_counterexample:
  "\<not> path_exists small_fs ''out/'' \<and>
   path_exists (snd (get_average_dark empty_glint ''data/'' ''out/'' (None, None) False False
                       (-50, 50) ''dark'' small_fs)) ''out/''"
proof -
  have "snd (get_average_dark empty_glint ''data/'' ''out/'' (None, None) False False (-50, 50)
               ''dark'' small_fs) = small_fs\<lparr>paths := insert (False, [''out'']) (paths small_fs)\<rparr>"
    by (simp add: get_average_dark_def small_fs_listdir small_fs_dark_list small_fs_out
          accumulate_empty_glint finalize_def io_defs del: accumulate.simps)
  then show ?thesis
    by (simp add: small_fs_def path_exists_def entry_of_def components_def)
qed

text \<open>
  C8 (amended): for every run of \<open>get_average_dark\<close> with \<open>save\<close> and \<open>monitor\<close> unset, no
  artifact is written: the contents of the files are unchanged. The only change to the file
  system is what the creation of the output directory does. When the data folder cannot be
  listed, or the output directory exists, nothing changes. Otherwise the file system after
  the run is the one \<open>os.makedirs(output_path)\<close> leaves, whether it succeeds or fails: every
  entry that existed still exists, and every new entry is the output directory or a
  directory on the way to it (a missing parent directory).
\<close>

theorem C8_no_save_only_creates_directories:
  "(let fs' = snd (get_average_dark g data_path output_path nb_files False False edges keyword fs)
    in fs' = (case listdir fs data_path of
                Inl e \<Rightarrow> fs
              | Inr listing \<Rightarrow> snd (ensure_output_dir output_path fs)) \<and>
       contents fs' = contents fs \<and>
       paths fs \<subseteq> paths fs' \<and>
       paths fs' \<subseteq> paths fs \<union> ancestors output_path \<and>
       (path_exists fs output_path \<longrightarrow> fs' = fs))"
proof -
  let ?fs' = "snd (get_average_dark g data_path output_path nb_files False False edges keyword fs)"
  have run: "?fs' = (case listdir fs data_path of
                       Inl e \<Rightarrow> fs
                     | Inr listing \<Rightarrow> snd (ensure_output_dir output_path fs))"
    by (simp add: get_average_dark_def finalize_def io_defs split: prod.splits sum.splits)
  have "contents ?fs' = contents fs \<and> paths fs \<subseteq> paths ?fs' \<and>
        paths ?fs' \<subseteq> paths fs \<union> ancestors output_path"
    unfolding run using ensure_output_dir_frame [of output_path fs]
    by (cases "listdir fs data_path") auto
  moreover have "path_exists fs output_path \<longrightarrow> ?fs' = fs"
    unfolding run by (cases "listdir fs data_path") (simp_all add: ensure_output_dir_exists)
  ultimately show ?thesis
    using run by (simp add: Let_def)
qed

theorem C8_no_save_witness:
  "snd (get_average_dark empty_glint ''data/'' ''a/b/out/'' (None, None) False False (-50, 50)
          ''dark'' small_fs)
     = small_fs\<lparr>paths := insert (False, [''a'', ''b'', ''out''])
                             (insert (False, [''a'', ''b''])
                               (insert (False, [''a'']) (paths small_fs)))\<rparr> \<and>
   snd (get_average_dark empty_glint ''data/'' ''data/'' (None, None) False False (-50, 50)
          ''dark'' small_fs)
     = small_fs \<and>
   snd (get_average_dark empty_glint ''data/'' '''' (None, None) False False (-50, 50)
          ''dark'' small_fs)
     = small_fs \<and>
   snd (get_average_dark empty_glint ''nowhere/'' ''out/'' (None, None) False False (-50, 50)
          ''dark'' small_fs)
     = small_fs"
proof -
  have e: "path_exists small_fs ''data/''"
    by (simp add: path_exists_def small_fs_def entry_of_def components_def)
  have n: "listdir small_fs ''nowhere/'' = Inl OSError"
    by (simp add: small_fs_def)
  show ?thesis
    using C8_no_save_only_creates_directories
            [of empty_glint "''data/''" "''a/b/out/''" "(None, None)" "(-50, 50)" "''dark''" small_fs]
      C8_no_save_only_creates_directories
            [of empty_glint "''data/''" "''data/''" "(None, None)" "(-50, 50)" "''dark''" small_fs]
      C8_no_save_only_creates_directories
            [of empty_glint "''data/''" "''''" "(None, None)" "(-50, 50)" "''dark''" small_fs]
      C8_no_save_only_creates_directories
            [of empty_glint "''nowhere/''" "''out/''" "(None, None)" "(-50, 50)" "''dark''" small_fs]
    by (simp add: Let_def small_fs_listdir small_fs_nested ensure_output_dir_exists [OF e] n
          ensure_output_dir_empty)
qed

subsection \<open>Which files a run writes\<close>

lemma same_at_refl [simp]: "same_at p fs fs"
  by (simp add: same_at_def)

lemma same_at_trans: "same_at p a b \<Longrightarrow> same_at p b c \<Longrightarrow> same_at p a c"
  by (simp add: same_at_def)

lemma same_at_write_file:
  "entry_of p \<noteq> entry_of q \<Longrightarrow> same_at p fs (write_file q x fs)"
  by (simp add: same_at_def write_file_def)

lemma same_at_save_histo_dark:
  "entry_of p \<noteq> entry_of q \<Longrightarrow> same_at p fs (save_histo_dark q d mode fs)"
  by (simp add: save_histo_dark_def same_at_write_file)

lemma same_at_savefig: "entry_of p \<noteq> entry_of q \<Longrightarrow> same_at p fs (savefig q fs)"
  by (simp add: savefig_def same_at_write_file)

lemma keeps_return: "keeps p (io_return x)"
  by (simp add: keeps_def io_return_def)

lemma keeps_lift: "keeps p (io_lift r)"
  by (simp add: keeps_def io_lift_def)

lemma keeps_write: "(\<And>fs. same_at p fs (w fs)) \<Longrightarrow> keeps p (io_write w)"
  by (simp add: keeps_def io_write_def)

lemma keeps_when: "keeps p m \<Longrightarrow> keeps p (io_when b m)"
  by (simp add: io_when_def keeps_return)

lemma keeps_bind:
  assumes "keeps p m" "\<And>x. keeps p (f x)"
  shows "keeps p (io_bind m f)"
  unfolding keeps_def
proof
  fix fs
  have m: "same_at p fs (snd (m fs))" using assms(1) by (simp add: keeps_def)
  show "same_at p fs (snd (io_bind m f fs))"
  proof (cases "m fs")
    case (Pair r fs')
    show ?thesis
    proof (cases r)
      case (Inl e)
      with Pair m show ?thesis by (simp add: io_bind_def)
    next
      case (Inr x)
      have "same_at p fs' (snd (f x fs'))" using assms(2) by (simp add: keeps_def)
      with Pair Inr m show ?thesis
        by (auto simp: io_bind_def intro: same_at_trans)
    qed
  qed
qed

text \<open>
  The components of a name that continues \<open>op\<close> with a file name \<open>s\<close>: those of \<open>op\<close> up to
  its last separator, then a component that starts with the rest of \<open>op\<close> followed by \<open>s\<close>.
\<close>

lemma components_name_after:
  assumes "CHR ''/'' \<notin> set s" "2 \<le> length s"
  shows "\<exists>rest. components (op @ s @ r)
           = filter (\<lambda>w. w \<noteq> [] \<and> w \<noteq> ''.'') (butlast (split_sep op))
             @ (last (split_sep op) @ s @ hd (split_sep r)) # rest \<and>
           (r = [] \<longrightarrow> rest = [])"
proof -
  have sr: "split_sep (s @ r) = (s @ hd (split_sep r)) # tl (split_sep r)"
    using assms(1) by (simp add: split_sep_append [of s r] split_sep_name)
  let ?w = "last (split_sep op) @ s @ hd (split_sep r)"
  have "2 \<le> length ?w" using assms(2) by simp
  then have ok: "?w \<noteq> [] \<and> ?w \<noteq> ''.''"
    by (cases ?w) auto
  show ?thesis
    using ok by (simp add: components_def split_sep_append [of op "s @ r"] sr)
qed

lemma entry_of_distinct:
  assumes "CHR ''/'' \<notin> set s" "2 \<le> length s" "CHR ''/'' \<notin> set t" "2 \<le> length t"
    and "\<not> prefix s t"
  shows "entry_of (op @ s @ r) \<noteq> entry_of (op @ t)"
proof
  assume eq: "entry_of (op @ s @ r) = entry_of (op @ t)"
  from components_name_after [OF assms(1,2), of op r] obtain rest
    where 1: "components (op @ s @ r)
                = filter (\<lambda>w. w \<noteq> [] \<and> w \<noteq> ''.'') (butlast (split_sep op))
                  @ (last (split_sep op) @ s @ hd (split_sep r)) # rest"
    by blast
  from components_name_after [OF assms(3,4), of op "[]"]
  have 2: "components (op @ t)
             = filter (\<lambda>w. w \<noteq> [] \<and> w \<noteq> ''.'') (butlast (split_sep op))
               @ [last (split_sep op) @ t]"
    by simp
  from eq have "components (op @ s @ r) = components (op @ t)"
    by (simp add: entry_of_def)
  then have "s @ hd (split_sep r) = t"
    unfolding 1 2 by simp
  then have "prefix s t" by (metis prefixI)
  with assms(5) show False by simp
qed

lemma entry_of_not_ancestor:
  assumes "CHR ''/'' \<notin> set s" "2 \<le> length s"
  shows "entry_of (op @ s @ r) \<notin> ancestors op"
proof
  assume "entry_of (op @ s @ r) \<in> ancestors op"
  then have pre: "prefix (components (op @ s @ r)) (components op)"
    by (simp add: ancestors_iff entry_of_def)
  from components_name_after [OF assms, of op r] obtain rest
    where 1: "components (op @ s @ r)
                = filter (\<lambda>w. w \<noteq> [] \<and> w \<noteq> ''.'') (butlast (split_sep op))
                  @ (last (split_sep op) @ s @ hd (split_sep r)) # rest"
    by blast
  have "split_sep op = butlast (split_sep op) @ [last (split_sep op)]"
    by simp
  then have 2: "components op
                  = filter (\<lambda>w. w \<noteq> [] \<and> w \<noteq> ''.'') (butlast (split_sep op))
                    @ filter (\<lambda>w. w \<noteq> [] \<and> w \<noteq> ''.'') [last (split_sep op)]"
    unfolding components_def by (metis filter_append)
  from pre have "prefix ((last (split_sep op) @ s @ hd (split_sep r)) # rest)
                   (filter (\<lambda>w. w \<noteq> [] \<and> w \<noteq> ''.'') [last (split_sep op)])"
    unfolding 1 2 by simp
  then have "last (split_sep op) @ s @ hd (split_sep r) = last (split_sep op)"
    by (auto simp: prefix_Cons split: if_splits)
  then show False using assms(2) by auto
qed

text \<open>
  No file that \<open>check_dark\<close> writes starts with \<open>output_path + 'superdark'\<close>, and no
  directory that the creation of the output directory adds.
\<close>

lemma superdark_not_target:
  assumes "prefix (op @ ''superdark'') p"
  shows "entry_of p \<noteq> entry_of (op @ ''hist_dk_params.hdf5'')"
    "entry_of p \<noteq> entry_of (op @ ''hist_dk_slices.hdf5'')"
    "entry_of p \<noteq> entry_of (op @ ''hist_dk.hdf5'')"
    "entry_of p \<noteq> entry_of (op @ ''histogram_dark_fullframe.png'')"
    "entry_of p \<noteq> entry_of (op @ ''histogram_dark.png'')"
    "entry_of p \<noteq> entry_of (op @ ''histogram_dark_logscale.png'')"
    "entry_of p \<noteq> entry_of (op @ ''avg_time_lapse.png'')"
    "entry_of p \<noteq> entry_of (op @ ''avg_dark_fullframe.png'')"
    "entry_of p \<notin> ancestors op"
proof -
  from assms obtain r where p: "p = op @ ''superdark'' @ r"
    by (auto simp: prefix_def)
  show "entry_of p \<noteq> entry_of (op @ ''hist_dk_params.hdf5'')"
    unfolding p by (rule entry_of_distinct) simp_all
  show "entry_of p \<noteq> entry_of (op @ ''hist_dk_slices.hdf5'')"
    unfolding p by (rule entry_of_distinct) simp_all
  show "entry_of p \<noteq> entry_of (op @ ''hist_dk.hdf5'')"
    unfolding p by (rule entry_of_distinct) simp_all
  show "entry_of p \<noteq> entry_of (op @ ''histogram_dark_fullframe.png'')"
    unfolding p by (rule entry_of_distinct) simp_all
  show "entry_of p \<noteq> entry_of (op @ ''histogram_dark.png'')"
    unfolding p by (rule entry_of_distinct) simp_all
  show "entry_of p \<noteq> entry_of (op @ ''histogram_dark_logscale.png'')"
    unfolding p by (rule entry_of_distinct) simp_all
  show "entry_of p \<noteq> entry_of (op @ ''avg_time_lapse.png'')"
    unfolding p by (rule entry_of_distinct) simp_all
  show "entry_of p \<noteq> entry_of (op @ ''avg_dark_fullframe.png'')"
    unfolding p by (rule entry_of_distinct) simp_all
  show "entry_of p \<notin> ancestors op"
    unfolding p by (rule entry_of_not_ancestor) simp_all
qed

lemma same_at_save_histograms:
  assumes "prefix (op @ ''superdark'') p"
  shows "same_at p fs (save_histograms op h fs)"
proof -
  note ne = superdark_not_target [OF assms]
  let ?fs1 = "save_histo_dark (op @ ''hist_dk_params.hdf5'')
                (nd2 (map (map Some) (params h))) ''channel'' fs"
  let ?fs2 = "save_histo_dark (op @ ''hist_dk_slices.hdf5'')
                (nd3 (hist_to_save h)) ''channel'' ?fs1"
  let ?fs3 = "save_histo_dark (op @ ''hist_dk.hdf5'')
                (nd2 [global_hist h, map Some (butlast (bin_hist h))]) ''global'' ?fs2"
  have 1: "same_at p fs ?fs1" by (rule same_at_save_histo_dark [OF ne(1)])
  have 2: "same_at p ?fs1 ?fs2" by (rule same_at_save_histo_dark [OF ne(2)])
  have 3: "same_at p ?fs2 ?fs3" by (rule same_at_save_histo_dark [OF ne(3)])
  have "same_at p fs ?fs3"
    by (rule same_at_trans [OF same_at_trans [OF 1 2] 3])
  then show ?thesis
    by (simp only: save_histograms_def Let_def)
qed

lemma keeps_save_histograms:
  "prefix (op @ ''superdark'') p \<Longrightarrow> keeps p (io_when save (io_write (save_histograms op h)))"
  by (rule keeps_when, rule keeps_write, rule same_at_save_histograms)

lemma keeps_savefig:
  "entry_of p \<noteq> entry_of q \<Longrightarrow> keeps p (io_when save (io_write (savefig q)))"
  by (rule keeps_when, rule keeps_write, rule same_at_savefig)

lemma keeps_check_dark:
  assumes "prefix (op @ ''superdark'') p"
  shows "keeps p (check_dark g dark_list avg edge_min edge_max sdc save op)"
proof -
  note ne = superdark_not_target [OF assms]
  show ?thesis
    unfolding check_dark_def
    by (rule keeps_bind keeps_lift keeps_return keeps_save_histograms [OF assms]
          keeps_savefig [OF ne(4)] keeps_savefig [OF ne(5)] keeps_savefig [OF ne(6)]
          keeps_savefig [OF ne(7)] keeps_savefig [OF ne(8)])+
qed

lemma keeps_ensure_output_dir:
  assumes "prefix (op @ ''superdark'') p"
  shows "keeps p (ensure_output_dir op)"
proof -
  have "entry_of p \<notin> ancestors op" by (rule superdark_not_target(9) [OF assms])
  then show ?thesis
    using ensure_output_dir_frame [of op] by (auto simp: keeps_def same_at_def)
qed

text \<open>
  C9: for every run of \<open>get_average_dark\<close> with \<open>save = True\<close> in which the loop ends with a
  total frame count of zero, no file whose path starts with \<open>output_path + 'superdark'\<close> is
  written (neither \<open>superdark.npy\<close> nor \<open>superdarkchannel.npy\<close>): the entry of such a path
  exists after the run exactly if it existed before, with the same contents, with monitoring
  on or off.
\<close>

theorem C9_zero_frames_saves_no_superdark:
  assumes "listdir fs data_path = Inr listing"
    and "accumulate g monitor (select_dark_list data_path listing keyword nb_files) acc_init
           = Inr a"
    and "nb_img a = 0"
    and "prefix (output_path @ ''superdark'') p"
  shows "same_at p fs
           (snd (get_average_dark g data_path output_path nb_files True monitor edges keyword fs))"
proof -
  let ?dl = "select_dark_list data_path listing keyword nb_files"
  define rest :: "dark_result io" where
    "rest = (if monitor
             then (case avg_dark a of
                     None \<Rightarrow> io_lift (Inl NameError)
                   | Some av \<Rightarrow>
                       (case spatial_axis a of
                          None \<Rightarrow> io_lift (Inl NameError)
                        | Some sp \<Rightarrow>
                            io_bind (check_dark g ?dl av (fst edges) (snd edges)
                                       (super_dark_channel a) True output_path)
                              (\<lambda>(ps, hc, hg). io_return
                                 (Monitored (super_dark a) (super_dark_channel a) ps hc hg))))
             else io_return (Averages (super_dark a) (super_dark_channel a)))"
  have "keeps p rest"
    unfolding rest_def
    by (auto split: option.splits simp: split_def
          intro!: keeps_bind keeps_lift keeps_return keeps_check_dark [OF assms(4)])
  then have k: "keeps p (io_bind (ensure_output_dir output_path) (\<lambda>_. rest))"
    by (intro keeps_bind keeps_ensure_output_dir [OF assms(4)])
  obtain r fs1 where e: "ensure_output_dir output_path fs = (r, fs1)"
    by (cases "ensure_output_dir output_path fs")
  have "get_average_dark g data_path output_path nb_files True monitor edges keyword fs
          = io_bind (ensure_output_dir output_path) (\<lambda>_. rest) fs"
    by (cases r)
       (simp_all add: get_average_dark_def finalize_def rest_def io_bind_def io_lift_def
          io_return_def os_listdir_def Let_def assms(1,2,3) e)
  then show ?thesis
    using k by (simp add: keeps_def)
qed

theorem C9_zero_frames_witness:
  "same_at ''out/superdark.npy'' small_fs
     (snd (get_average_dark empty_glint ''data/'' ''out/'' (None, None) True False (-50, 50)
             ''dark'' small_fs)) \<and>
   same_at ''out/superdarkchannel.npy'' small_fs
     (snd (get_average_dark empty_glint ''data/'' ''out/'' (None, None) True False (-50, 50)
             ''dark'' small_fs))"
proof -
  have 1: "accumulate empty_glint False
             (select_dark_list ''data/'' [''dark_01.mat'', ''notes.txt''] ''dark'' (None, None))
             acc_init
           = Inr \<lparr>super_dark = zeros2 344 96, super_dark_channel = zeros3 96 16 20, nb_img = 0,
                  avg_dark = None, spatial_axis = Some []\<rparr>"
    by (simp only: small_fs_dark_list accumulate_empty_glint if_False)
  show ?thesis
    by (intro conjI; rule C9_zero_frames_saves_no_superdark [OF small_fs_listdir 1]) simp_all
qed

subsection \<open>Mapping a function that may raise\<close>

lemma err_map_Inl:
  "x \<in> set xs \<Longrightarrow> f x = Inl e \<Longrightarrow> \<exists>e'. err_map f xs = Inl e'"
  by (induction xs) (auto simp: err_bind_def split: sum.splits)

lemma err_map_const:
  "(\<And>x. x \<in> set xs \<Longrightarrow> f x = Inr c) \<Longrightarrow> err_map f xs = Inr (replicate (length xs) c)"
  by (induction xs) (simp_all add: err_bind_def)

subsection \<open>The single-pixel traces\<close>

lemma flat_slice_pixel: "flat_slice v ! 56 ! 15 ! 10 = v"
  by (simp add: flat_slice_def)

lemma flat_slice_spectrum: "np_mean (flat_slice v ! 56 ! 15) = Some v"
  by (simp add: flat_slice_def np_mean_def sum_list_replicate)

lemma dk56bis_first:
  "dk56bis (update_traces sl None) = [np_mean (map (\<lambda>s. s ! 56 ! 15 ! 10) sl)]"
  by (simp add: update_traces_def Let_def)

lemma dk56_first:
  "dk56 (update_traces sl None) = map (\<lambda>s. np_mean (s ! 56 ! 15)) sl"
  by (simp add: update_traces_def Let_def)

lemma dk56bis_next:
  "dk56bis (update_traces sl (Some t))
     = dk56 t @ map (\<lambda>s. np_mean (s ! 56 ! 15)) sl @ [np_mean (map (\<lambda>s. s ! 56 ! 15 ! 10) sl)]"
  by (simp add: update_traces_def Let_def)

text \<open>
  C3 (the code departs from the claim): \<open>dk56bis\<close> should hold one entry per processed
  frame, the sample at spatial index 56, channel 15, spectral index 10, kept apart from
  \<open>dk56\<close>. One exposure of two frames with the samples 1 and 3 gives the single entry 2,
  their mean over the frames. Two exposures of one frame each, with the samples 1 and 2,
  give three entries: the two entries of \<open>dk56\<close> followed by the sample of the second
  exposure.
\<close>

theorem C3_dk56bis_failing_input:
  "dk56bis (update_traces [flat_slice 1, flat_slice 3] None) = [Some 2] \<and>
   dk56bis (update_traces [flat_slice 2] (Some (update_traces [flat_slice 1] None)))
     = [Some 1, Some 2, Some 2]"
proof -
  have "np_mean [1, 3] = Some 2" "np_mean [1] = Some 1" "np_mean [2] = Some 2"
    by (simp_all add: np_mean_def)
  then show ?thesis
    by (simp add: dk56bis_first dk56bis_next dk56_first flat_slice_pixel flat_slice_spectrum)
qed
subsection \<open>Rounding to a double\<close>

lemma round_half_even_error: "\<bar>of_int (round_half_even y) - y\<bar> \<le> 1 / 2"
  unfolding round_half_even_def Let_def by (auto simp: abs_if) linarith+

text \<open>The relative error of a rounded number is at most \<open>2 powr -53\<close>.\<close>

lemma float64_error: "\<bar>float64 x - x\<bar> \<le> 2 powr (- 53) * \<bar>x\<bar>"
proof (cases "x = 0")
  case True
  then show ?thesis by (simp add: float64_def)
next
  case False
  define e where "e = \<lfloor>log 2 \<bar>x\<bar>\<rfloor>"
  define ulp :: real where "ulp = 2 powr (of_int e - 52)"
  have ulp: "0 < ulp" by (simp add: ulp_def)
  have f: "float64 x = of_int (round_half_even (x / ulp)) * ulp"
    using False by (simp add: float64_def Let_def ulp_def e_def)
  have "float64 x - x = (of_int (round_half_even (x / ulp)) - x / ulp) * ulp"
    using ulp by (simp add: f field_simps)
  then have "\<bar>float64 x - x\<bar> = \<bar>of_int (round_half_even (x / ulp)) - x / ulp\<bar> * ulp"
    using ulp by (simp add: abs_mult)
  also have "\<dots> \<le> 1 / 2 * ulp"
    using ulp round_half_even_error [of "x / ulp"] by (intro mult_right_mono) simp_all
  also have "1 / 2 * ulp = 2 powr (- 53) * 2 powr (of_int e)"
    by (simp add: ulp_def powr_diff powr_minus field_simps)
  also have "\<dots> \<le> 2 powr (- 53) * \<bar>x\<bar>"
  proof -
    have "of_int e \<le> log 2 \<bar>x\<bar>" by (simp add: e_def)
    then have "2 powr (of_int e) \<le> 2 powr (log 2 \<bar>x\<bar>)"
      by (simp add: powr_mono)
    also have "\<dots> = \<bar>x\<bar>" using False by simp
    finally show ?thesis by (intro mult_left_mono) simp_all
  qed
  finally show ?thesis .
qed

lemma float64_half: "float64 (1 / 2) = 1 / 2"
proof -
  have "log 2 (1 / 2) = - 1" by (simp add: log_divide)
  then have "float64 (1 / 2) = of_int (round_half_even (1 / 2 / 2 powr (- 53))) * 2 powr (- 53)"
    by (simp add: float64_def Let_def)
  also have "(1::real) / 2 / 2 powr (- 53) = 2 ^ 52"
    by (simp add: powr_minus powr_realpow [symmetric] field_simps)
  also have "round_half_even (2 ^ 52) = 2 ^ 52"
    by (simp add: round_half_even_def Let_def)
  also have "of_int (2 ^ 52) * 2 powr (- 53) = (1::real) / 2"
    by (simp add: powr_minus field_simps)
  finally show ?thesis .
qed

lemma float64_one: "float64 1 = 1"
proof -
  have "float64 1 = of_int (round_half_even (1 / 2 powr (- 52))) * 2 powr (- 52)"
    by (simp add: float64_def Let_def)
  also have "(1::real) / 2 powr (- 52) = 2 ^ 52"
    by (simp add: powr_minus powr_realpow [symmetric] field_simps)
  also have "round_half_even (2 ^ 52) = 2 ^ 52"
    by (simp add: round_half_even_def Let_def)
  also have "of_int (2 ^ 52) * 2 powr (- 52) = (1::real)"
    by (simp add: powr_minus field_simps)
  finally show ?thesis .
qed

subsection \<open>Normalization of the channel histograms\<close>

lemma sum_list_divide_const: "sum_list (map (\<lambda>c. real c / t) h) = real (sum_list h) / t"
  by (induction h) (simp_all add: add_divide_distrib)

lemma normalize_hist_nonzero:
  "sum_list h \<noteq> 0 \<Longrightarrow>
     normalize_hist h = map (\<lambda>c. Some (float64 (real c / real (sum_list h)))) h"
  by (simp add: normalize_hist_def np_true_divide_def)

lemma normalize_hist_zero:
  "sum_list h = 0 \<Longrightarrow> normalize_hist h = replicate (length h) None"
  by (simp add: normalize_hist_def np_true_divide_def map_replicate_const)

lemma sum_list_float64_error:
  "\<bar>sum_list (map (\<lambda>c. float64 (real c / t)) h) - sum_list (map (\<lambda>c. real c / t) h)\<bar>
     \<le> 2 powr (- 53) * sum_list (map (\<lambda>c. \<bar>real c / t\<bar>) h)"
proof (induction h)
  case Nil
  then show ?case by simp
next
  case (Cons c h)
  have "\<bar>float64 (real c / t) - real c / t\<bar> \<le> 2 powr (- 53) * \<bar>real c / t\<bar>"
    by (rule float64_error)
  with Cons show ?case by (simp add: algebra_simps)
qed

text \<open>The entries of a normalized row add up to 1, up to the rounding of one division.\<close>

lemma normalize_hist_sum:
  assumes "sum_list h \<noteq> 0"
  shows "\<bar>sum_list (map the (normalize_hist h)) - 1\<bar> \<le> 2 powr (- 53)"
proof -
  let ?t = "real (sum_list h)"
  have "0 < sum_list h" using assms by (metis gr0I)
  then have t: "0 < ?t" by (simp only: of_nat_0_less_iff)
  have "?t / ?t = 1"
    using t by (intro divide_self) (metis less_irrefl)
  then have 1: "sum_list (map (\<lambda>c. real c / ?t) h) = 1"
    by (simp only: sum_list_divide_const)
  have "map (\<lambda>c. \<bar>real c / ?t\<bar>) h = map (\<lambda>c. real c / ?t) h"
    by simp
  then have 2: "sum_list (map (\<lambda>c. \<bar>real c / ?t\<bar>) h) = 1"
    using 1 by simp
  have m: "map the (normalize_hist h) = map (\<lambda>c. float64 (real c / ?t)) h"
    using assms by (simp add: normalize_hist_nonzero comp_def)
  have "\<bar>sum_list (map (\<lambda>c. float64 (real c / ?t)) h) - 1\<bar> \<le> 2 powr (- 53) * 1"
    using sum_list_float64_error [of ?t h] unfolding 1 2 .
  then show ?thesis
    by (simp only: m mult_1_right)
qed

text \<open>
  The per-file channel histograms that the loop collects have 16 rows of one entry per
  bin.
\<close>

lemma err_map_histogram_shape:
  "err_map (\<lambda>k. get_histogram (a k) edges) ks = Inr hp \<Longrightarrow>
     length hp = length ks \<and> (\<forall>r\<in>set hp. length r = length edges - 1)"
proof (induction ks arbitrary: hp)
  case Nil
  then show ?case by simp
next
  case (Cons k ks)
  from Cons.prems obtain r rs where r: "get_histogram (a k) edges = Inr r"
    and rs: "err_map (\<lambda>k. get_histogram (a k) edges) ks = Inr rs" and hp: "hp = r # rs"
    by (auto simp: err_bind_def split: sum.splits)
  have "length r = length edges - 1"
    using r by (auto simp: get_histogram_def np_histogram_def split: if_splits)
  with Cons.IH [OF rs] hp show ?case by simp
qed

lemma diag_file_hist_slices:
  assumes "diag_file g edges sdc f st = Inr st'"
  shows "\<exists>hp. hist_slices st' = hist_slices st @ [hp] \<and> length hp = 16 \<and>
           (\<forall>r\<in>set hp. length r = length edges - 1)"
  using assms unfolding diag_file_def err_bind_def Let_def
  by (auto split: sum.splits dest!: err_map_histogram_shape)

lemma diag_loop_hist_slices:
  assumes "diag_loop g edges sdc fs st = Inr st'"
    and "\<forall>hp\<in>set (hist_slices st). length hp = 16 \<and> (\<forall>r\<in>set hp. length r = length edges - 1)"
  shows "\<forall>hp\<in>set (hist_slices st'). length hp = 16 \<and> (\<forall>r\<in>set hp. length r = length edges - 1)"
  using assms
proof (induction fs arbitrary: st)
  case Nil
  then show ?case by simp
next
  case (Cons f fs)
  from Cons.prems(1) obtain st1 where 1: "diag_file g edges sdc f st = Inr st1"
    and 2: "diag_loop g edges sdc fs st1 = Inr st'"
    by (auto simp: err_bind_def split: sum.splits)
  from diag_file_hist_slices [OF 1] Cons.prems(2)
  have "\<forall>hp\<in>set (hist_slices st1). length hp = 16 \<and> (\<forall>r\<in>set hp. length r = length edges - 1)"
    by auto
  with Cons.IH [OF 2] show ?case by simp
qed

text \<open>The sum over the file axis, entry by entry.\<close>

lemma foldl_add_tables:
  fixes acc :: "nat list list"
  assumes "\<forall>h\<in>set (acc # rest). length h = m \<and> (\<forall>r\<in>set h. length r = n)"
  shows "length (foldl (map2 (map2 (+))) acc rest) = m \<and>
         (\<forall>i<m. length (foldl (map2 (map2 (+))) acc rest ! i) = n \<and>
            (\<forall>b<n. foldl (map2 (map2 (+))) acc rest ! i ! b
                     = acc ! i ! b + (\<Sum>h\<leftarrow>rest. h ! i ! b)))"
  using assms
proof (induction rest arbitrary: acc)
  case Nil
  then show ?case by simp
next
  case (Cons h rest)
  let ?acc = "map2 (map2 (+)) acc h"
  have la: "length acc = m" and lh: "length h = m"
    and ra: "\<And>i. i < m \<Longrightarrow> length (acc ! i) = n" and rh: "\<And>i. i < m \<Longrightarrow> length (h ! i) = n"
    using Cons.prems by auto
  have l: "length ?acc = m" using la lh by simp
  have row: "?acc ! i = map2 (+) (acc ! i) (h ! i)" if "i < m" for i
    using that la lh by simp
  have lr: "length (?acc ! i) = n" if "i < m" for i
    using that ra rh by (simp add: row)
  have el: "?acc ! i ! b = acc ! i ! b + h ! i ! b" if "i < m" "b < n" for i b
    using that ra rh by (simp add: row)
  have "\<forall>h\<in>set (?acc # rest). length h = m \<and> (\<forall>r\<in>set h. length r = n)"
    using Cons.prems l lr by (auto simp: in_set_conv_nth)
  from Cons.IH [OF this] show ?case
    using el by (simp add: add.assoc)
qed

lemma sum_hist_slices_counts:
  assumes "hs \<noteq> []"
    and "\<forall>h\<in>set hs. length h = m \<and> (\<forall>r\<in>set h. length r = n)"
  shows "\<exists>counts. sum_hist_slices hs = Inr counts \<and> length counts = m \<and>
           (\<forall>i<m. counts ! i = map (\<lambda>b. \<Sum>h\<leftarrow>hs. h ! i ! b) [0..<n])"
proof -
  from assms(1) obtain h rest where hs: "hs = h # rest" by (cases hs) auto
  let ?c = "foldl (map2 (map2 (+))) h rest"
  note f = foldl_add_tables [OF assms(2) [unfolded hs]]
  have "?c ! i = map (\<lambda>b. \<Sum>h\<leftarrow>hs. h ! i ! b) [0..<n]" if "i < m" for i
    using f that by (intro nth_equalityI) (simp_all add: hs)
  then show ?thesis
    using f by (simp add: sum_hist_slices_def hs)
qed

text \<open>What \<open>check_dark\<close> returns when it returns.\<close>

lemma io_bind_InrE:
  assumes "io_bind m f fs = (Inr r, fs')"
  obtains x fs1 where "m fs = (Inr x, fs1)" "f x fs1 = (Inr r, fs')"
  using assms by (auto simp: io_bind_def split: prod.splits sum.splits)

lemma check_dark_returns:
  assumes "check_dark g dark_list avg edge_min edge_max sdc save output_path fs
             = (Inr (ps, hc, hg), fs')"
  shows "\<exists>h. build_histograms g dark_list edge_min edge_max sdc = Inr h \<and>
           ps = params h \<and> hc = hist_to_save h"
  using assms unfolding check_dark_def
  by (elim io_bind_InrE) (auto simp: io_lift_def io_return_def)

text \<open>The channel histograms that \<open>check_dark\<close> fits and returns are the normalized rows of
  the sum over the files.\<close>

lemma build_histograms_super_hist:
  assumes "build_histograms g dark_list edge_min edge_max sdc = Inr h"
  shows "\<exists>edges st counts.
           bin_edges edge_min edge_max = Inr edges \<and>
           diag_loop g edges sdc dark_list \<lparr>list_hist = [], hist_slices = [], series = None\<rparr>
             = Inr st \<and>
           sum_hist_slices (hist_slices st) = Inr counts \<and>
           super_hist h = normalize_rows counts \<and>
           hist_to_save h
             = map (\<lambda>row. map2 (\<lambda>h e. [h, Some e]) row (butlast edges)) (normalize_rows counts)"
  using assms
  by (auto simp: build_histograms_def err_bind_def Let_def split: sum.splits)

lemma map_hd_pairs:
  "length row \<le> length es \<Longrightarrow> map hd (map2 (\<lambda>h e. [h, Some e]) row es) = row"
  by (intro nth_equalityI) simp_all

subsection \<open>A run of \<open>check_dark\<close> over two exposures of one flat frame\<close>

lemma concat_replicate_replicate: "concat (replicate m (replicate n x)) = replicate (m * n) x"
  by (induction m) (simp_all add: replicate_add)

lemma centred_flat: "centred [replicate 344 (replicate 96 v)] = replicate 33024 0"
  by (simp add: centred_def concat_replicate_replicate np_mean_def sum_list_replicate)

lemma sub3_flat_zeros: "sub3 (flat_slice v) (zeros3 96 16 20) = flat_slice v"
  by (simp add: sub3_def flat_slice_def zeros3_def zeros2_def)

lemma channel_values_flat: "k < 16 \<Longrightarrow> channel_values [flat_slice v] k = replicate 1920 v"
  by (simp add: channel_values_def flat_slice_def concat_replicate_replicate)

lemma np_histogram_replicate:
  "sorted edges \<Longrightarrow>
     np_histogram (replicate n x) edges
       = Inr (map (\<lambda>i. if in_bin edges i x then n else 0) [0..<length edges - 1])"
  by (simp add: np_histogram_def)

lemma diag_file_flat_glint:
  assumes "sorted edges"
  shows "diag_file flat_glint edges (zeros3 96 16 20) f st
         = Inr \<lparr>list_hist = list_hist st
                   @ [map (\<lambda>i. if in_bin edges i 0 then 33024 else 0) [0..<length edges - 1]],
                hist_slices = hist_slices st
                   @ [replicate 16 (map (\<lambda>i. if in_bin edges i (flat_value f) then 1920 else 0)
                                      [0..<length edges - 1])],
                series = Some (update_traces [flat_slice (flat_value f)] (series st))\<rparr>"
proof -
  have h: "err_map (\<lambda>k. get_histogram (channel_values [flat_slice (flat_value f)] k) edges)
             [0..<16]
           = Inr (replicate 16 (map (\<lambda>i. if in_bin edges i (flat_value f) then 1920 else 0)
                                  [0..<length edges - 1]))"
    using err_map_const [of "[0..<16]"
        "\<lambda>k. get_histogram (channel_values [flat_slice (flat_value f)] k) edges"
        "map (\<lambda>i. if in_bin edges i (flat_value f) then 1920 else 0) [0..<length edges - 1]"]
      assms
    by (simp add: get_histogram_def channel_values_flat np_histogram_replicate)
  show ?thesis
    using assms
    by (simp add: diag_file_def err_bind_def flat_glint_def centred_flat
          np_histogram_replicate sub3_flat_zeros h)
qed

lemma bin_edges_example: "bin_edges (- 1) 1 = Inr [- (3 / 2), 0, 3 / 2]"
  by (simp add: bin_edges_def linspace_def linspace_delta_def upt_rec numeral_2_eq_2
        numeral_3_eq_3)

lemma diag_loop_flat_glint:
  "diag_loop flat_glint [- (3 / 2), 0, 3 / 2] (zeros3 96 16 20)
     [''data/dark_01.mat'', ''data/dark_02.mat'']
     \<lparr>list_hist = [], hist_slices = [], series = None\<rparr>
   = Inr \<lparr>list_hist = [[0, 33024], [0, 33024]],
          hist_slices = [replicate 16 [1920, 0], replicate 16 [0, 1920]],
          series = Some (update_traces [flat_slice 1]
                     (Some (update_traces [flat_slice (- 1)] None)))\<rparr>"
proof -
  have s: "sorted [- (3 / 2), 0, 3 / 2 :: real]" by simp
  have u: "[0..<length [- (3 / 2), 0, 3 / 2 :: real] - 1] = [0, 1]"
    by (simp add: upt_rec)
  show ?thesis
    by (simp add: diag_file_flat_glint [OF s] u err_bind_def in_bin_def flat_value_def)
qed

lemma normalize_hist_example:
  "normalize_hist [1920, 1920] = [Some (1 / 2), Some (1 / 2)]"
  "normalize_hist [0, 66048] = [Some 0, Some 1]"
  by (simp_all add: normalize_hist_def np_true_divide_def float64_half float64_one)
     (simp_all add: float64_def)

lemma normalize_hist_single: "0 < n \<Longrightarrow> normalize_hist [n] = [Some 1]"
  by (simp add: normalize_hist_def np_true_divide_def float64_one)

lemma build_histograms_flat_glint:
  "build_histograms flat_glint [''data/dark_01.mat'', ''data/dark_02.mat''] (- 1) 1
     (zeros3 96 16 20)
   = Inr \<lparr>bin_hist = [- (3 / 2), 0, 3 / 2], bin_hist_cent = [- (3 / 4), 3 / 4],
          super_hist = replicate 16 [Some (1 / 2), Some (1 / 2)],
          global_hist = [Some 0, Some 1],
          params = replicate 16 [1 / 2, 0, 50],
          hist_to_save = replicate 16 [[Some (1 / 2), Some (- (3 / 2))], [Some (1 / 2), Some 0]],
          time_series = Some (update_traces [flat_slice 1]
                          (Some (update_traces [flat_slice (- 1)] None)))\<rparr>"
proof -
  have step: "bin_step (- 1) 1 = Some (3 / 2)"
    by (simp add: bin_step_def linspace_step_def linspace_delta_def)
  have counts: "sum_hist_slices [replicate 16 [1920, 0], replicate 16 [0, 1920]]
                  = Inr (replicate 16 [1920, 1920])"
    by (simp add: sum_hist_slices_def)
  have rows: "normalize_rows (replicate 16 [1920, 1920]) = replicate 16 [Some (1 / 2), Some (1 / 2)]"
    by (simp add: normalize_rows_def normalize_hist_example)
  have fit: "fit_histogram flat_glint [- (3 / 4), 3 / 4] [Some (1 / 2), Some (1 / 2)]
               = Inr [1 / 2, 0, 50]"
    by (simp add: fit_histogram_def py_max_def curve_fit_def err_bind_def flat_glint_def)
  have fits: "err_map (\<lambda>i. fit_histogram flat_glint [- (3 / 4), 3 / 4]
                             (replicate 16 [Some (1 / 2), Some (1 / 2)] ! i)) [0..<16]
                = Inr (replicate 16 [1 / 2, 0, 50])"
    using err_map_const [of "[0..<16]"
        "\<lambda>i. fit_histogram flat_glint [- (3 / 4), 3 / 4]
               (replicate 16 [Some (1 / 2), Some (1 / 2)] ! i)" "[1 / 2, 0, 50]"]
    by (simp add: fit)
  show ?thesis
    by (simp add: build_histograms_def bin_edges_example step diag_loop_flat_glint err_bind_def
          counts rows fits sum_list_hist_def normalize_hist_example del: diag_loop.simps)
qed

text \<open>On these exposures \<open>check_dark\<close> returns.\<close>

lemma check_dark_flat_glint:
  "check_dark flat_glint [''data/dark_01.mat'', ''data/dark_02.mat''] (replicate 10 (Some 0))
     (- 1) 1 (zeros3 96 16 20) False ''out/'' small_fs
   = (Inr (replicate 16 [1 / 2, 0, 50],
           replicate 16 [[Some (1 / 2), Some (- (3 / 2))], [Some (1 / 2), Some 0]],
           [[Some 0, Some 1], [Some (- (3 / 2)), Some 0]]),
      small_fs)"
proof -
  let ?t = "update_traces [flat_slice 1] (Some (update_traces [flat_slice (- 1)] None))"
  have mean: "np_mean [1 :: real] = Some 1"
    by (simp add: np_mean_def)
  have d: "dk56 ?t = [Some (- 1), Some 1]" "dk56bis ?t = [Some (- 1), Some 1, Some 1]"
    by (simp_all add: update_traces_def Let_def flat_slice_spectrum flat_slice_pixel mean)
  have sq: "isqrt (Suc (Suc 0)) = Suc 0" "isqrt (Suc (Suc (Suc 0))) = Suc 0"
    by (simp_all add: isqrt_def upt_rec)
  have lin: "linspace (- 1) 1 (Suc (Suc 0)) = [- 1, 1]"
    by (simp add: linspace_def linspace_delta_def upt_rec)
  have f1: "fit_trace flat_glint [Some (- 1), Some 1] = Inr [1, 0, 1]"
    by (simp add: fit_trace_def np_histogram_auto_def sq lin np_histogram_def in_bin_def
          err_bind_def normalize_hist_single py_max_def curve_fit_def flat_glint_def
          np_mean_f_def np_std_f_def np_mean_def)
  have f2: "\<exists>p. fit_trace flat_glint [Some (- 1), Some 1, Some 1] = Inr p"
    by (simp add: fit_trace_def np_histogram_auto_def sq lin np_histogram_def in_bin_def
          err_bind_def normalize_hist_single py_max_def curve_fit_def flat_glint_def Let_def)
  have dr: "err_map (drift_channel flat_glint (dark_current ?t)) [0..<16]
              = Inr (replicate 16 [0, 0])"
    using err_map_const [of "[0..<16]" "drift_channel flat_glint (dark_current ?t)" "[0, 0]"]
    by (simp add: drift_channel_def flat_glint_def)
  have df: "drift_fullframe flat_glint (replicate 10 (Some 0)) = Inr [0, 0]"
    by (simp add: drift_fullframe_def flat_glint_def)
  have fg: "\<exists>p. fit_histogram flat_glint [- (3 / 4), 3 / 4] [Some 0, Some 1] = Inr p"
    by (simp add: fit_histogram_def py_max_def curve_fit_def err_bind_def flat_glint_def)
  from f2 fg obtain p2 pg
    where p2: "fit_trace flat_glint [Some (- 1), Some 1, Some 1] = Inr p2"
      and pg: "fit_histogram flat_glint [- (3 / 4), 3 / 4] [Some 0, Some 1] = Inr pg"
    by blast
  show ?thesis
    unfolding check_dark_def build_histograms_flat_glint
    by (simp add: io_defs d f1 p2 pg dr df)
qed

subsection \<open>The normalized channel rows\<close>

text \<open>
  C2: after the per-file channel histograms are summed over the file axis, every channel
  row is divided by its own total. For a channel \<open>i\<close> whose summed histogram has a nonzero
  total: the summed row holds, for every bin, the sum of the counts of the files; every
  entry of the normalized row is the double nearest to the count over the total of that
  row; the entries of the normalized row add up to 1 within \<open>2 powr -53\<close>; and these normalized
  rows are the channel histograms that \<open>check_dark\<close> fits and returns.
\<close>

theorem C2_rows_normalized_by_own_total:
  assumes "bin_edges edge_min edge_max = Inr edges"
    and "diag_loop g edges sdc dark_list \<lparr>list_hist = [], hist_slices = [], series = None\<rparr>
           = Inr st"
    and "i < 16"
    and "(\<Sum>b\<leftarrow>[0..<length edges - 1]. \<Sum>h\<leftarrow>hist_slices st. h ! i ! b) \<noteq> 0"
  shows "\<exists>counts.
           sum_hist_slices (hist_slices st) = Inr counts \<and>
           counts ! i = map (\<lambda>b. \<Sum>h\<leftarrow>hist_slices st. h ! i ! b) [0..<length edges - 1] \<and>
           normalize_rows counts ! i
             = map (\<lambda>c. Some (float64 (real c / real (sum_list (counts ! i))))) (counts ! i) \<and>
           \<bar>sum_list (map the (normalize_rows counts ! i)) - 1\<bar> \<le> 2 powr (- 53) \<and>
           (\<forall>h. build_histograms g dark_list edge_min edge_max sdc = Inr h \<longrightarrow>
                  super_hist h = normalize_rows counts) \<and>
           (\<forall>ps hc hg fs'.
              check_dark g dark_list avg edge_min edge_max sdc save output_path fs
                = (Inr (ps, hc, hg), fs') \<longrightarrow>
              map (map hd) hc = normalize_rows counts)"
proof -
  let ?n = "length edges - 1"
  have shape: "\<forall>hp\<in>set (hist_slices st). length hp = 16 \<and> (\<forall>r\<in>set hp. length r = ?n)"
    using diag_loop_hist_slices [OF assms(2)] by simp
  have ne: "hist_slices st \<noteq> []"
    using assms(4) by auto
  from sum_hist_slices_counts [OF ne shape] obtain counts
    where c: "sum_hist_slices (hist_slices st) = Inr counts" and lc: "length counts = 16"
      and rows: "\<And>j. j < 16 \<Longrightarrow> counts ! j = map (\<lambda>b. \<Sum>h\<leftarrow>hist_slices st. h ! j ! b) [0..<?n]"
    by auto
  have tot: "sum_list (counts ! i) \<noteq> 0"
    using assms(4) by (simp add: rows [OF assms(3)])
  have row: "normalize_rows counts ! i = normalize_hist (counts ! i)"
    using assms(3) lc by (simp add: normalize_rows_def)
  have lens: "\<forall>r\<in>set (normalize_rows counts). length r \<le> length (butlast edges)"
    using rows lc by (auto simp: normalize_rows_def normalize_hist_def in_set_conv_nth)
  have b: "super_hist h = normalize_rows counts \<and> map (map hd) (hist_to_save h) = normalize_rows counts"
    if "build_histograms g dark_list edge_min edge_max sdc = Inr h" for h
  proof -
    from build_histograms_super_hist [OF that] assms(1,2) c
    have sh: "super_hist h = normalize_rows counts"
      and hs: "hist_to_save h
                 = map (\<lambda>row. map2 (\<lambda>h e. [h, Some e]) row (butlast edges)) (normalize_rows counts)"
      by auto
    have "map (map hd) (hist_to_save h) = normalize_rows counts"
      unfolding hs map_map
    proof (rule map_idI)
      fix row assume "row \<in> set (normalize_rows counts)"
      then have "length row \<le> length (butlast edges)" using lens by blast
      then show "(map hd \<circ> (\<lambda>row. map2 (\<lambda>h e. [h, Some e]) row (butlast edges))) row = row"
        by (simp only: o_apply map_hd_pairs)
    qed
    with sh show ?thesis by simp
  qed
  have "map (map hd) hc = normalize_rows counts"
    if "check_dark g dark_list avg edge_min edge_max sdc save output_path fs
          = (Inr (ps, hc, hg), fs')" for ps hc hg fs'
    using check_dark_returns [OF that] b by auto
  then show ?thesis
    using c rows [OF assms(3)] row normalize_hist_nonzero [OF tot] normalize_hist_sum [OF tot] b
    by (intro exI [of _ counts]) simp
qed

theorem C2_rows_normalized_witness:
  "\<exists>counts.
     sum_hist_slices [replicate 16 [1920, 0], replicate 16 [0, 1920]] = Inr counts \<and>
     counts ! 3 = [1920, 1920] \<and>
     normalize_rows counts ! 3 = [Some (1 / 2), Some (1 / 2)] \<and>
     \<bar>sum_list (map the (normalize_rows counts ! 3)) - 1\<bar> \<le> 2 powr (- 53) \<and>
     (\<exists>ps hc hg fs'.
        check_dark flat_glint [''data/dark_01.mat'', ''data/dark_02.mat'']
          (replicate 10 (Some 0)) (- 1) 1 (zeros3 96 16 20) False ''out/'' small_fs
          = (Inr (ps, hc, hg), fs') \<and>
        map (map hd) hc = normalize_rows counts)"
proof -
  have t: "(\<Sum>b\<leftarrow>[0..<length [- (3 / 2), 0, 3 / 2 :: real] - 1].
              \<Sum>h\<leftarrow>hist_slices \<lparr>list_hist = [[0, 33024], [0, 33024]],
                     hist_slices = [replicate 16 [1920, 0], replicate 16 [0, 1920]],
                     series = Some (update_traces [flat_slice 1]
                                (Some (update_traces [flat_slice (- 1)] None)))\<rparr>. h ! 3 ! b)
           \<noteq> (0 :: nat)"
    by (simp add: upt_rec)
  from C2_rows_normalized_by_own_total
         [OF bin_edges_example diag_loop_flat_glint _ t,
          of "replicate 10 (Some 0)" False "''out/''" small_fs]
  obtain counts
    where c: "sum_hist_slices [replicate 16 [1920, 0], replicate 16 [0, 1920]] = Inr counts"
      and r: "counts ! 3 = map (\<lambda>b. \<Sum>h\<leftarrow>[replicate 16 [1920, 0], replicate 16 [0, 1920]]. h ! 3 ! b)
                            [0..<length [- (3 / 2), 0, 3 / 2 :: real] - 1]"
      and n: "normalize_rows counts ! 3
                = map (\<lambda>c. Some (float64 (real c / real (sum_list (counts ! 3))))) (counts ! 3)"
      and s: "\<bar>sum_list (map the (normalize_rows counts ! 3)) - 1\<bar> \<le> 2 powr (- 53)"
      and k: "\<And>ps hc hg fs'.
                check_dark flat_glint [''data/dark_01.mat'', ''data/dark_02.mat'']
                  (replicate 10 (Some 0)) (- 1) 1 (zeros3 96 16 20) False ''out/'' small_fs
                  = (Inr (ps, hc, hg), fs') \<Longrightarrow>
                map (map hd) hc = normalize_rows counts"
    by auto
  have r': "counts ! 3 = [1920, 1920]"
    using r by (simp add: upt_rec)
  have n': "normalize_rows counts ! 3 = [Some (1 / 2), Some (1 / 2)]"
    using n by (simp add: r' float64_half)
  show ?thesis
    using c r' n' s k [OF check_dark_flat_glint] check_dark_flat_glint
    by (intro exI [of _ counts]) auto
qed

subsection \<open>A channel without counts\<close>

lemma fit_histogram_non_finite:
  "fit_histogram g cent (replicate n None) = Inl ValueError"
  by (cases n) (simp_all add: fit_histogram_def py_max_def curve_fit_def err_bind_def)

lemma np_histogram_Nil:
  "sorted edges \<Longrightarrow> np_histogram [] edges = Inr (replicate (length edges - 1) 0)"
  by (simp add: np_histogram_def map_replicate_const)

text \<open>An exposure without frames adds a row of zero counts for every channel.\<close>

lemma diag_file_empty_glint:
  assumes "sorted edges"
  shows "diag_file empty_glint edges sdc f st
         = Inr \<lparr>list_hist = list_hist st @ [replicate (length edges - 1) 0],
                hist_slices = hist_slices st @ [replicate 16 (replicate (length edges - 1) 0)],
                series = Some (update_traces [] (series st))\<rparr>"
proof -
  have h: "err_map (\<lambda>k. get_histogram (channel_values [] k) edges) [0..<16]
           = Inr (replicate 16 (replicate (length edges - 1) 0))"
    using err_map_const [of "[0..<16]" "\<lambda>k. get_histogram (channel_values [] k) edges"
        "replicate (length edges - 1) 0"] assms
    by (simp add: get_histogram_def channel_values_def np_histogram_Nil)
  show ?thesis
    using assms
    by (simp add: diag_file_def err_bind_def empty_glint_def centred_def np_histogram_Nil h)
qed

lemma bin_edges_sorted:
  assumes "edge_min < edge_max"
  shows "\<exists>es. bin_edges edge_min edge_max = Inr es \<and> sorted es"
proof -
  let ?n = "nat (edge_max - edge_min + 1)"
  let ?a = "real_of_int edge_min - 0.5" and ?b = "real_of_int edge_max + 0.5"
  have "0 < linspace_delta ?a ?b ?n"
    using assms by (simp add: linspace_delta_def)
  then have "sorted_wrt (<) (linspace ?a ?b ?n)"
    by (rule linspace_increasing)
  then have "sorted (linspace ?a ?b ?n)"
    by (rule strict_sorted_imp_sorted)
  then show ?thesis
    using assms by (simp add: bin_edges_def)
qed

lemma empty_glint_counts:
  assumes "edge_min < edge_max"
  shows "\<exists>es st. bin_edges edge_min edge_max = Inr es \<and>
           diag_loop empty_glint es sdc [f] \<lparr>list_hist = [], hist_slices = [], series = None\<rparr>
             = Inr st \<and>
           sum_hist_slices (hist_slices st) = Inr (replicate 16 (replicate (length es - 1) 0))"
proof -
  from bin_edges_sorted [OF assms] obtain es
    where es: "bin_edges edge_min edge_max = Inr es" "sorted es" by blast
  have "diag_loop empty_glint es sdc [f] \<lparr>list_hist = [], hist_slices = [], series = None\<rparr>
          = Inr \<lparr>list_hist = [replicate (length es - 1) 0],
                 hist_slices = [replicate 16 (replicate (length es - 1) 0)],
                 series = Some (update_traces [] None)\<rparr>"
    by (simp add: diag_file_empty_glint [OF es(2)] err_bind_def)
  then show ?thesis
    using es(1) by (simp add: sum_hist_slices_def)
qed

text \<open>
  C6 (as stated, fails): the normalization would be guarded against a zero total, and a
  channel without counts would give a missing fit and no crash. For one exposure without
  frames, every channel has the total zero: the division is done and gives non-finite
  entries, and \<open>check_dark\<close> raises.
\<close>

theorem C6_no_guard_counterexample:
  "normalize_rows (replicate 16 [0, 0]) ! 15 = [None, None] \<and>
   fst (check_dark empty_glint [''data/dark_01.mat''] [] 0 2 (zeros3 96 16 20) False ''out/''
          small_fs) = Inl ValueError"
proof -
  have 1: "normalize_rows (replicate 16 [0, 0]) ! 15 = [None, None]"
    by (simp add: normalize_rows_def normalize_hist_def np_true_divide_def)
  from empty_glint_counts [of 0 2 "zeros3 96 16 20" "''data/dark_01.mat''"] obtain es st
    where es: "bin_edges 0 2 = Inr es"
      and st: "diag_loop empty_glint es (zeros3 96 16 20) [''data/dark_01.mat'']
                 \<lparr>list_hist = [], hist_slices = [], series = None\<rparr> = Inr st"
      and c: "sum_hist_slices (hist_slices st) = Inr (replicate 16 (replicate (length es - 1) 0))"
    by auto
  have first: "fit_histogram empty_glint cent
          (normalize_rows (replicate 16 (replicate (length es - 1) 0)) ! 0) = Inl ValueError"
    for cent
    by (simp add: normalize_rows_def normalize_hist_zero sum_list_replicate
          fit_histogram_non_finite)
  have upt: "[0..<16] = 0 # [Suc 0..<16]"
    by (simp add: upt_conv_Cons)
  have "err_map (\<lambda>i. fit_histogram empty_glint cent
                (normalize_rows (replicate 16 (replicate (length es - 1) 0)) ! i)) [0..<16]
       = Inl ValueError" for cent
    unfolding upt err_map.simps first by (simp add: err_bind_def)
  then have "build_histograms empty_glint [''data/dark_01.mat''] 0 2 (zeros3 96 16 20)
               = Inl ValueError"
    using es st c by (simp add: build_histograms_def err_bind_def Let_def)
  then have "fst (check_dark empty_glint [''data/dark_01.mat''] [] 0 2 (zeros3 96 16 20) False
                    ''out/'' small_fs) = Inl ValueError"
    by (simp add: check_dark_def io_bind_def io_lift_def)
  with 1 show ?thesis by simp
qed

text \<open>
  C6 (amended): the normalization of \<open>check_dark\<close> is not guarded. Every channel row is
  divided by its own total whatever that total is; for a channel whose summed histogram has
  a total count of zero every entry of the normalized row is non-finite, the fit of the
  channels raises (\<open>curve_fit\<close> refuses non-finite data), and \<open>check_dark\<close> raises instead of
  returning, having written nothing.
\<close>

theorem C6_zero_total_channel_raises:
  assumes "bin_edges edge_min edge_max = Inr edges"
    and "diag_loop g edges sdc dark_list \<lparr>list_hist = [], hist_slices = [], series = None\<rparr>
           = Inr st"
    and "sum_hist_slices (hist_slices st) = Inr counts"
    and "i < 16" and "i < length counts"
    and "sum_list (counts ! i) = 0"
  shows "normalize_rows counts ! i = replicate (length (counts ! i)) None \<and>
         (\<exists>e. check_dark g dark_list avg edge_min edge_max sdc save output_path fs = (Inl e, fs))"
proof -
  have row: "normalize_rows counts ! i = replicate (length (counts ! i)) None"
    using assms(5,6) by (simp add: normalize_rows_def normalize_hist_zero)
  let ?cent = "case bin_step edge_min edge_max of None \<Rightarrow> []
               | Some step \<Rightarrow> map (\<lambda>e. e + step / 2) (butlast edges)"
  have "fit_histogram g ?cent (normalize_rows counts ! i) = Inl ValueError"
    by (simp only: row fit_histogram_non_finite)
  moreover have "i \<in> set [0..<16]" using assms(4) by simp
  ultimately obtain e where
    "err_map (\<lambda>i. fit_histogram g ?cent (normalize_rows counts ! i)) [0..<16] = Inl e"
    using err_map_Inl [of i "[0..<16]" "\<lambda>i. fit_histogram g ?cent (normalize_rows counts ! i)"]
    by blast
  then have "build_histograms g dark_list edge_min edge_max sdc = Inl e"
    using assms(1,2,3) by (simp add: build_histograms_def err_bind_def Let_def)
  then have "check_dark g dark_list avg edge_min edge_max sdc save output_path fs = (Inl e, fs)"
    by (simp add: check_dark_def io_bind_def io_lift_def)
  with row show ?thesis by blast
qed

theorem C6_zero_total_channel_witness:
  "\<exists>e. check_dark empty_glint [''data/dark_02.mat''] [] (- 1) 1 (zeros3 96 16 20) True ''out/''
          small_fs = (Inl e, small_fs)"
proof -
  from empty_glint_counts [of "- 1" 1 "zeros3 96 16 20" "''data/dark_02.mat''"] obtain es st
    where es: "bin_edges (- 1) 1 = Inr es"
      and st: "diag_loop empty_glint es (zeros3 96 16 20) [''data/dark_02.mat'']
                 \<lparr>list_hist = [], hist_slices = [], series = None\<rparr> = Inr st"
      and c: "sum_hist_slices (hist_slices st) = Inr (replicate 16 (replicate (length es - 1) 0))"
    by auto
  have z: "sum_list (replicate 16 (replicate (length es - 1) (0::nat)) ! 3) = 0"
    by (simp add: sum_list_replicate)
  show ?thesis
    using C6_zero_total_channel_raises [OF es st c _ _ z, of "[]" True "''out/''" small_fs]
    by simp
qed

end
